theory Spec2Isabelle
  imports Complex_Main
begin

section \<open>Errors and loops that can raise\<close>

text \<open>
  Every \<open>raise\<close> of the sources is a value: \<open>ValueError\<close> and \<open>TypeError\<close> carry
  the message the source gives them (the empty string for a bare \<open>raise ValueError\<close>),
  \<open>AssertionError\<close> is a failed \<open>assert\<close>, and \<open>IndexError\<close> is an index out of
  range.
\<close>

datatype error = ValueError string | TypeError string | AssertionError | IndexError

text \<open>A \<open>for\<close> loop over a list whose body can raise: the first error ends the loop.\<close>

fun fold_err :: "('b \<Rightarrow> 'a \<Rightarrow> 'e + 'a) \<Rightarrow> 'b list \<Rightarrow> 'a \<Rightarrow> 'e + 'a" where
  "fold_err f [] s = Inr s"
| "fold_err f (x # xs) s = (case f x s of Inl e \<Rightarrow> Inl e | Inr s' \<Rightarrow> fold_err f xs s')"

section \<open>Operator expressions\<close>

text \<open>
  A factor of a term is the pair (orbital index, action) of OpenFermion: the action is
  \<open>True\<close> for a creation operator (written \<open>i^\<close>) and \<open>False\<close> for an
  annihilation operator (written \<open>i\<close>). A term is the tuple of its factors, and the
  \<open>terms\<close> dictionary of a \<open>FermionOperator\<close> is an association list in insertion
  order, which is the order Python iterates a dictionary in. Coefficients are complex
  numbers; the model computes with them exactly.
\<close>

type_synonym factor = "nat \<times> bool"
type_synonym op_term = "factor list"
type_synonym fermion_operator = "(op_term \<times> complex) list"

text \<open>Python's \<open>d.get(k, dflt)\<close> and \<open>d[k] = v\<close> on a dictionary in insertion order.\<close>

definition dict_get :: "('k \<times> 'v) list \<Rightarrow> 'k \<Rightarrow> 'v \<Rightarrow> 'v" where
  "dict_get d k dflt = (case map_of d k of None \<Rightarrow> dflt | Some v \<Rightarrow> v)"

fun dict_set :: "('k \<times> 'v) list \<Rightarrow> 'k \<Rightarrow> 'v \<Rightarrow> ('k \<times> 'v) list" where
  "dict_set [] k v = [(k, v)]"
| "dict_set ((k', v') # d) k v =
     (if k' = k then (k, v) # d else (k', v') # dict_set d k v)"

text \<open>Python's \<open>del d[k]\<close> for a key of the dictionary.\<close>

definition dict_del :: "('k \<times> 'v) list \<Rightarrow> 'k \<Rightarrow> ('k \<times> 'v) list" where
  "dict_del d k = filter (\<lambda>(k', v). k' \<noteq> k) d"

text \<open>OpenFermion's tolerance for coefficients, \<open>EQ_TOLERANCE = 1e-08\<close>.\<close>

definition EQ_TOLERANCE :: real where
  "EQ_TOLERANCE = 1 / 10 ^ 8"

text \<open>
  \<open>self += addend\<close> of OpenFermion's operators: every term of the addend is accumulated
  into the dictionary of \<open>self\<close>, and a term whose coefficient ends below the
  tolerance is deleted:
  \<^verbatim>\<open>self.terms[term] = self.terms.get(term, 0.0) + addend.terms[term]\<close>, then
  \<^verbatim>\<open>if abs(self.terms[term]) < EQ_TOLERANCE: del self.terms[term]\<close>.
\<close>

definition iadd :: "fermion_operator \<Rightarrow> fermion_operator \<Rightarrow> fermion_operator" where
  "iadd self addend =
     fold (\<lambda>(trm, coeff) terms.
             let terms = dict_set terms trm (dict_get terms trm 0 + coeff)
             in if cmod (dict_get terms trm 0) < EQ_TOLERANCE then dict_del terms trm
                else terms)
          addend self"

text \<open>
  \<open>many_body_order\<close> of OpenFermion: 0 for the operator without terms, and otherwise
  \<^verbatim>\<open>max(len(term) for term, coeff in self.terms.items() if abs(coeff) > EQ_TOLERANCE)\<close>,
  which raises when no coefficient is above the tolerance.
\<close>

definition many_body_order :: "fermion_operator \<Rightarrow> error + nat" where
  "many_body_order ops =
     (if ops = [] then Inr 0
      else (case filter (\<lambda>(trm, coeff). EQ_TOLERANCE < cmod coeff) ops of
              [] \<Rightarrow> Inl (ValueError ''max() arg is an empty sequence'')
            | kept \<Rightarrow> Inr (fold (\<lambda>(trm, coeff) m. max (length trm) m) kept 0)))"

section \<open>The spin-breaking transform\<close>

text \<open>
  \<^verbatim>\<open>transform_to_spin_broken\<close> writes every factor in OpenFermion's string syntax
  (\<open>str(i) + '^ '\<close> for a creation operator, \<open>str(i) + ' '\<close> for an annihilation
  operator) and builds a one-term operator from the string. The model keeps the four
  branches of the source and records, for each, the factor that the string denotes.
\<close>

definition spin_broken_element :: "factor \<Rightarrow> factor" where
  "spin_broken_element element =
     (if fst element mod 2 \<noteq> 0
      then (if snd element then (fst element, False) else (fst element, True))
      else (if snd element then (fst element, True) else (fst element, False)))"

definition transform_to_spin_broken :: "fermion_operator \<Rightarrow> fermion_operator" where
  "transform_to_spin_broken ops =
     fold (\<lambda>(trm, coeff) newstr. iadd newstr [(map spin_broken_element trm, coeff)]) ops []"

section \<open>Dense arrays\<close>

text \<open>
  A numpy array is its shape and its entries, read at the list of its indices; the
  entries at indices outside the shape carry no meaning.
\<close>

record ndarray =
  shape :: "nat list"
  entries :: "nat list \<Rightarrow> complex"

definition zeros :: "nat list \<Rightarrow> ndarray" where
  "zeros shp = \<lparr>shape = shp, entries = (\<lambda>ix. 0)\<rparr>"

definition in_bounds :: "ndarray \<Rightarrow> nat list \<Rightarrow> bool" where
  "in_bounds a ix = list_all2 (\<lambda>i n. i < n) ix (shape a)"

text \<open>\<open>a[tuple(ix)] += c\<close> with one index for every axis.\<close>

definition iadd_at :: "ndarray \<Rightarrow> nat list \<Rightarrow> complex \<Rightarrow> error + ndarray" where
  "iadd_at a ix c =
     (if in_bounds a ix then Inr (a\<lparr>entries := (entries a)(ix := entries a ix + c)\<rparr>)
      else Inl IndexError)"

text \<open>The two-dimensional arrays of the rank-2 classifier: \<open>a.shape[0]\<close>, \<open>a.shape[1]\<close>.\<close>

definition nrows :: "ndarray \<Rightarrow> nat" where
  "nrows a = (case shape a of [] \<Rightarrow> 0 | n # ns \<Rightarrow> n)"

definition ncols :: "ndarray \<Rightarrow> nat" where
  "ncols a = (case shape a of n # m # ns \<Rightarrow> m | _ \<Rightarrow> 0)"

text \<open>\<open>a[i, j]\<close>, which raises out of range.\<close>

definition get2 :: "ndarray \<Rightarrow> nat \<Rightarrow> nat \<Rightarrow> error + complex" where
  "get2 a i j = (if i < nrows a \<and> j < ncols a then Inr (entries a [i, j]) else Inl IndexError)"

text \<open>\<open>a.conj().T\<close> and \<open>a.diagonal()\<close>.\<close>

definition conj_T :: "ndarray \<Rightarrow> ndarray" where
  "conj_T a = \<lparr>shape = [ncols a, nrows a],
              entries = (\<lambda>ix. case ix of [i, j] \<Rightarrow> cnj (entries a [j, i]) | _ \<Rightarrow> 0)\<rparr>"

definition diagonal :: "ndarray \<Rightarrow> ndarray" where
  "diagonal a = \<lparr>shape = [min (nrows a) (ncols a)],
                entries = (\<lambda>ix. case ix of [i] \<Rightarrow> entries a [i, i] | _ \<Rightarrow> 0)\<rparr>"

text \<open>
  The slice \<open>a[r0:r1, c0:c1]\<close>: numpy clips both bounds to the axis, and a slice whose
  stop is not beyond its start is empty.
\<close>

definition slice2 :: "ndarray \<Rightarrow> nat \<Rightarrow> nat \<Rightarrow> nat \<Rightarrow> nat \<Rightarrow> ndarray" where
  "slice2 a r0 r1 c0 c1 =
     (let rs = min r0 (nrows a); cs = min c0 (ncols a)
      in \<lparr>shape = [min r1 (nrows a) - rs, min c1 (ncols a) - cs],
           entries = (\<lambda>ix. case ix of [i, j] \<Rightarrow> entries a [rs + i, cs + j] | _ \<Rightarrow> 0)\<rparr>)"

text \<open>\<open>a.any()\<close>: some entry is not zero.\<close>

definition any_nonzero :: "ndarray \<Rightarrow> bool" where
  "any_nonzero a =
     list_ex (\<lambda>i. list_ex (\<lambda>j. entries a [i, j] \<noteq> 0) [0..<ncols a]) [0..<nrows a]"

text \<open>
  \<open>numpy.isclose\<close> with its default tolerances, \<open>|a - b| <= atol + rtol * |b|\<close> with
  \<open>rtol = 1e-05\<close> and \<open>atol = 1e-08\<close>, on exact complex numbers.
\<close>

definition isclose :: "complex \<Rightarrow> complex \<Rightarrow> bool" where
  "isclose a b = (cmod (a - b) \<le> 1 / 10 ^ 8 + 1 / 10 ^ 5 * cmod b)"

text \<open>
  Broadcasting of numpy: two axes are compatible when their lengths are equal or one of
  them is 1, and an axis of length 1 is read at index 0 throughout.
\<close>

definition broadcast_dim :: "nat \<Rightarrow> nat \<Rightarrow> nat option" where
  "broadcast_dim m n =
     (if m = n then Some m else if m = 1 then Some n else if n = 1 then Some m else None)"

definition bidx :: "nat \<Rightarrow> nat \<Rightarrow> nat" where
  "bidx n i = (if n = 1 then 0 else i)"

text \<open>\<open>numpy.allclose(a, b)\<close> on two-dimensional arrays.\<close>

definition allclose :: "ndarray \<Rightarrow> ndarray \<Rightarrow> error + bool" where
  "allclose a b =
     (case (broadcast_dim (nrows a) (nrows b), broadcast_dim (ncols a) (ncols b)) of
        (Some r, Some c) \<Rightarrow>
          Inr (list_all (\<lambda>i. list_all (\<lambda>j.
                 isclose (entries a [bidx (nrows a) i, bidx (ncols a) j])
                         (entries b [bidx (nrows b) i, bidx (ncols b) j])) [0..<c]) [0..<r])
      | _ \<Rightarrow> Inl (ValueError ''operands could not be broadcast together''))"

text \<open>
  The assignment \<open>a[:, c0:c1] = b\<close>: the value is broadcast to the shape of the slice
  and raises when it does not fit.
\<close>

definition assign_cols :: "ndarray \<Rightarrow> nat \<Rightarrow> nat \<Rightarrow> ndarray \<Rightarrow> error + ndarray" where
  "assign_cols a c0 c1 b =
     (let cs = min c0 (ncols a); w = min c1 (ncols a) - cs
      in if (nrows b = nrows a \<or> nrows b = 1) \<and> (ncols b = w \<or> ncols b = 1)
         then Inr (a\<lparr>entries := (\<lambda>ix. case ix of
                      [i, j] \<Rightarrow> if i < nrows a \<and> cs \<le> j \<and> j < cs + w
                                then entries b [bidx (nrows b) i, bidx (ncols b) (j - cs)]
                                else entries a ix
                    | _ \<Rightarrow> entries a ix)\<rparr>)
         else Inl (ValueError ''could not broadcast input array''))"

section \<open>Representations and collaborators\<close>

text \<open>
  Modelled from the spec: the representation classes of \<open>fqe.hamiltonians\<close> are not
  among the sources. A specialized representation is an immutable value constructed from
  one or more dense tensors plus a scalar offset and a number-conservation flag; the
  model records which constructor the factory calls and with which arguments, in the
  order of the source: the tensors, then \<open>conserve_number\<close>, then \<open>e_0\<close> (the sparse
  representation takes \<open>norb\<close> and the operator first, the diagonal-Coulomb one has no
  flag).
\<close>

datatype hamiltonian =
    General "ndarray list" bool complex
  | SparseHamiltonian int fermion_operator bool complex
  | Diagonal ndarray bool complex
  | GSOHamiltonian "ndarray list" bool complex
  | Restricted "ndarray list" bool complex
  | SSOHamiltonian "ndarray list" bool complex
  | DiagonalCoulomb ndarray complex

fun e_0_of :: "hamiltonian \<Rightarrow> complex" where
  "e_0_of (General ts c e) = e"
| "e_0_of (SparseHamiltonian n ops c e) = e"
| "e_0_of (Diagonal d c e) = e"
| "e_0_of (GSOHamiltonian ts c e) = e"
| "e_0_of (Restricted ts c e) = e"
| "e_0_of (SSOHamiltonian ts c e) = e"
| "e_0_of (DiagonalCoulomb t e) = e"

text \<open>
  What the factory is given: a representation, a tuple of arrays, an operator expression,
  or anything else.
\<close>

datatype ops_input =
    Hamiltonian hamiltonian
  | Tuple "ndarray list"
  | FermionOperator fermion_operator
  | Unrecognized

text \<open>
  The functions the factory calls and the sources do not define are parameters:
  \<open>is_hermitian\<close> and \<open>normal_ordered\<close> of OpenFermion, and \<open>validate_tuple\<close> of
  \<open>fqe.util\<close>, which raises or returns nothing.
\<close>

record collaborators =
  is_hermitian :: "fermion_operator \<Rightarrow> bool"
  normal_ordered :: "fermion_operator \<Rightarrow> fermion_operator"
  validate_tuple :: "ndarray list \<Rightarrow> error option"

text \<open>
  Modelled from the spec: \<open>largest_operator_index\<close> of \<open>fqe.openfermion_utils\<close> is not
  among the sources. The specification gives the block requirement of an expression as
  \<open>(max_even_index//2 + 1, max_odd_index//2 + 1)\<close>, 0 if no such index is present, and
  the sources compute \<open>ablk // 2 + 1\<close> and \<open>bblk // 2 + 1\<close> (also \<open>(bblk - 1) // 2 + 1\<close>)
  from its result: it returns the largest even and the largest odd orbital index of the
  expression, and \<open>-1\<close> where there is none.
\<close>

definition largest_operator_index :: "fermion_operator \<Rightarrow> int \<times> int" where
  "largest_operator_index ops =
     (let indices = concat (map (\<lambda>(trm, coeff). map fst trm) ops)
      in (fold (\<lambda>p m. max (int p) m) (filter even indices) (- 1),
          fold (\<lambda>p m. max (int p) m) (filter odd indices) (- 1)))"

section \<open>The rank splitter\<close>

text \<open>
  One pass of the loop over the terms: \<open>term\<close> is the operator with the one entry
  \<open>(trm, coeff)\<close>, and its rank is \<open>term.many_body_order()\<close>.
\<close>

definition split_term ::
  "op_term \<times> complex \<Rightarrow> (nat \<times> fermion_operator) list \<times> complex
   \<Rightarrow> error + (nat \<times> fermion_operator) list \<times> complex" where
  "split_term tc st =
     (case tc of (trm, coeff) \<Rightarrow> case st of (split, e_0) \<Rightarrow>
        (case many_body_order [(trm, coeff)] of
           Inl e \<Rightarrow> Inl e
         | Inr rank \<Rightarrow>
             if rank mod 2 \<noteq> 0 then Inl (ValueError ''Odd rank term not accepted'')
             else if rank = 0 then Inr (split, e_0 + coeff)
             else (case map_of split rank of
                     None \<Rightarrow> Inr (dict_set split rank [(trm, coeff)], e_0)
                   | Some sub \<Rightarrow> Inr (dict_set split rank (iadd sub [(trm, coeff)]), e_0))))"

definition split_openfermion_tensor ::
  "fermion_operator \<Rightarrow> error + (nat \<times> fermion_operator) list \<times> complex" where
  "split_openfermion_tensor ops = fold_err split_term ops ([], 0)"

section \<open>The tensor builder\<close>

text \<open>
  One pass of the loop over the factors of a term: the check of the canonical order,
  then the blocked index of the factor, written into \<open>index_mask\<close>.
\<close>

definition tomatrix_factor ::
  "nat \<Rightarrow> nat \<Rightarrow> op_term \<Rightarrow> nat \<Rightarrow> nat list \<Rightarrow> error + nat list" where
  "tomatrix_factor rank ablk trm i index_mask =
     (if length trm \<le> i then Inl IndexError
      else let index = fst (trm ! i);
               raised =
                 (if i < rank div 2
                  then (if \<not> snd (trm ! i)
                        then Some (ValueError ''Found annihilation operator wherecreation is expected'')
                        else None)
                  else if snd (trm ! i)
                  then Some (ValueError ''Found creattion operator whereannihilation is expected'')
                  else None)
           in case raised of
                Some e \<Rightarrow> Inl e
              | None \<Rightarrow>
                  let ind = (if index mod 2 \<noteq> 0 then (index - 1) div 2 + ablk else index div 2)
                  in Inr (index_mask[i := ind]))"

text \<open>One pass of the loop over the terms; the state is the tensor and \<open>index_mask\<close>.\<close>

definition tomatrix_term ::
  "nat \<Rightarrow> nat \<Rightarrow> op_term \<times> complex \<Rightarrow> ndarray \<times> nat list \<Rightarrow> error + ndarray \<times> nat list" where
  "tomatrix_term rank ablk tc st =
     (case tc of (trm, coeff) \<Rightarrow> case st of (tensor, index_mask) \<Rightarrow>
        (case fold_err (tomatrix_factor rank ablk trm) [0..<rank] index_mask of
           Inl e \<Rightarrow> Inl e
         | Inr index_mask' \<Rightarrow>
             (case iadd_at tensor index_mask' coeff of
                Inl e \<Rightarrow> Inl e
              | Inr tensor' \<Rightarrow> Inr (tensor', index_mask'))))"

definition fermionops_tomatrix :: "fermion_operator \<Rightarrow> int \<Rightarrow> error + ndarray" where
  "fermionops_tomatrix ops norb =
     (let (ablk0, bblk0) = largest_operator_index ops;
          ablk = ablk0 div 2 + 1;
          bblk = (bblk0 - 1) div 2 + 1
      in if norb \<noteq> 0 \<and> norb < ablk
         then Inl (ValueError ''Highest alpha index exceeds the norb of orbitals'')
         else if norb \<noteq> 0 \<and> norb < bblk
         then Inl (ValueError ''Highest beta index exceeds the norb of orbitals'')
         else
           let dim = nat (if norb \<noteq> 0 then 2 * norb else max (2 * ablk) (2 * bblk));
               ablk = dim div 2
           in (case many_body_order ops of
                 Inl e \<Rightarrow> Inl e
               | Inr rank \<Rightarrow>
                   if rank mod 2 \<noteq> 0 then Inl (ValueError ''Odd rank operator not supported'')
                   else (case fold_err (tomatrix_term rank ablk) ops
                                (zeros (replicate rank dim), replicate rank 0) of
                           Inl e \<Rightarrow> Inl e
                         | Inr (tensor, index_mask) \<Rightarrow> Inr tensor)))"

section \<open>The structure classifier\<close>

text \<open>
  The scan of the strict lower triangle. The inner loop stops at the first entry that is
  not zero, with \<open>diagonal\<close> set to \<open>False\<close>; the outer loop goes on.
\<close>

fun scan_row :: "ndarray \<Rightarrow> nat \<Rightarrow> nat list \<Rightarrow> bool \<Rightarrow> error + bool" where
  "scan_row mat i [] diag = Inr diag"
| "scan_row mat i (j # js) diag =
     (case get2 mat i j of
        Inl e \<Rightarrow> Inl e
      | Inr v \<Rightarrow> if v \<noteq> 0 then Inr False else scan_row mat i js diag)"

text \<open>
  \<open>a.argmax()\<close> on the entries in row-major order, each with its index: the index of
  the first largest entry, and nothing for an array without entries.
\<close>

fun argmax :: "('a \<times> real) list \<Rightarrow> 'a option" where
  "argmax [] = None"
| "argmax ((ix, v) # rest) =
     Some (fst (fold (\<lambda>(jx, w) (bx, bv). if bv < w then (jx, w) else (bx, bv)) rest (ix, v)))"

text \<open>
  The diagnostics of a matrix that fails the Hermiticity test (lines 292 to 295):
  \<open>diff = numpy.abs(mat - mat.conj().T)\<close>, broadcast like the test itself, the index
  of its largest entry, and the two values that the source prints, \<open>mat[index]\<close> and
  \<open>mat[index[1], index[0]].conj()\<close>; reading either can raise. The result is what is
  printed.
\<close>

definition not_hermitian_report :: "ndarray \<Rightarrow> error + (nat \<times> nat) \<times> complex \<times> complex" where
  "not_hermitian_report mat =
     (case (broadcast_dim (nrows mat) (ncols mat), broadcast_dim (ncols mat) (nrows mat)) of
        (Some r, Some c) \<Rightarrow>
          (case argmax (map (\<lambda>(i, j). ((i, j),
                        cmod (entries mat [bidx (nrows mat) i, bidx (ncols mat) j]
                              - entries (conj_T mat) [bidx (ncols mat) i, bidx (nrows mat) j])))
                     (List.product [0..<r] [0..<c])) of
             None \<Rightarrow> Inl (ValueError ''attempt to get argmax of an empty sequence'')
           | Some (i, j) \<Rightarrow>
               (case get2 mat i j of
                  Inl e \<Rightarrow> Inl e
                | Inr v \<Rightarrow>
                    (case get2 mat j i of
                       Inl e \<Rightarrow> Inl e
                     | Inr w \<Rightarrow> Inr ((i, j), v, cnj w))))
      | _ \<Rightarrow> Inl (ValueError ''operands could not be broadcast together''))"

text \<open>
  \<^verbatim>\<open>process_rank2_matrix\<close>, for a two-dimensional array \<open>mat\<close> and an orbital count
  \<open>norb\<close> that is a natural number. On a matrix that fails the Hermiticity test the
  source computes and prints the diagnostics and then executes a bare
  \<open>raise ValueError\<close>: the diagnostics do not reach the error.
\<close>

definition process_rank2_matrix ::
  "ndarray \<Rightarrow> nat \<Rightarrow> bool \<Rightarrow> complex \<Rightarrow> error + hamiltonian" where
  "process_rank2_matrix mat norb conserve_number e_0 =
     (case allclose mat (conj_T mat) of
        Inl e \<Rightarrow> Inl e
      | Inr False \<Rightarrow>
          (case not_hermitian_report mat of
             Inl e \<Rightarrow> Inl e
           | Inr printed \<Rightarrow> Inl (ValueError []))
      | Inr True \<Rightarrow>
          let norb = (if norb = 0 then nrows mat else norb)
          in (case fold_err (\<lambda>i diag. scan_row mat i [0..<i] diag)
                     [1..<max norb (nrows mat)] True of
                Inl e \<Rightarrow> Inl e
              | Inr True \<Rightarrow> Inr (Diagonal (diagonal mat) conserve_number e_0)
              | Inr False \<Rightarrow>
                  if any_nonzero (slice2 mat norb (2 * norb) 0 norb)
                  then Inr (GSOHamiltonian [mat] conserve_number e_0)
                  else
                    (case allclose (slice2 mat 0 norb 0 norb)
                            (slice2 mat norb (nrows mat) norb (ncols mat)) of
                       Inl e \<Rightarrow> Inl e
                     | Inr True \<Rightarrow> Inr (Restricted [mat] conserve_number e_0)
                     | Inr False \<Rightarrow>
                         (case assign_cols (zeros [norb, 2 * norb]) 0 norb
                                 (slice2 mat 0 norb 0 norb) of
                            Inl e \<Rightarrow> Inl e
                          | Inr spin_mat \<Rightarrow>
                              (case assign_cols spin_mat norb (2 * norb)
                                      (slice2 mat norb (nrows mat) norb (ncols mat)) of
                                 Inl e \<Rightarrow> Inl e
                               | Inr spin_mat \<Rightarrow>
                                   Inr (SSOHamiltonian [spin_mat] conserve_number e_0))))))"

text \<open>
  \<^verbatim>\<open>check_diagonal_coulomb\<close>, for the four-dimensional array with equal axes that
  the factory hands it: the four nested loops return \<open>False\<close> at the first entry that
  is not zero away from \<open>i == k and j == l\<close>.
\<close>

definition check_diagonal_coulomb :: "ndarray \<Rightarrow> bool" where
  "check_diagonal_coulomb mat =
     (let dim = nrows mat
      in list_all (\<lambda>i. list_all (\<lambda>j. list_all (\<lambda>k. list_all (\<lambda>l.
           if i = k \<and> j = l then True else \<not> entries mat [i, j, k, l] \<noteq> 0)
           [0..<dim]) [0..<dim]) [0..<dim]) [0..<dim])"

section \<open>The factory\<close>

text \<open>One pass of the loop that infers the shared \<open>norb\<close> (lines 75 to 77).\<close>

definition norb_update :: "fermion_operator \<Rightarrow> int \<Rightarrow> int" where
  "norb_update trm norb =
     (let (ablk, bblk) = largest_operator_index trm
      in max (norb + 1) (max (ablk div 2 + 1) (bblk div 2 + 1)))"

text \<open>One pass of the loop that builds \<open>ops_mat\<close> (lines 80 and 81).\<close>

definition ops_mat_update ::
  "int \<Rightarrow> nat \<times> fermion_operator \<Rightarrow> (nat \<times> ndarray) list \<Rightarrow> error + (nat \<times> ndarray) list" where
  "ops_mat_update norb item ops_mat =
     (case item of (rank, trm) \<Rightarrow>
        (case fermionops_tomatrix trm norb of
           Inl e \<Rightarrow> Inl e
         | Inr tensor \<Rightarrow> Inr (dict_set ops_mat rank tensor)))"

text \<open>
  The fully general representation (lines 95 to 105): the ranks 2, 4, 6 and 8 that
  \<open>ops_mat\<close> lacks are filled with zeros of shape \<open>(2*norb,)*i\<close>, and the four
  tensors form the tuple.
\<close>

definition general_of :: "(nat \<times> ndarray) list \<Rightarrow> int \<Rightarrow> bool \<Rightarrow> complex \<Rightarrow> hamiltonian" where
  "general_of ops_mat norb conserve_number e_0 =
     General (map (\<lambda>i. case map_of ops_mat i of
                         None \<Rightarrow> zeros (replicate i (nat (2 * norb)))
                       | Some tensor \<Rightarrow> tensor) [2, 4, 6, 8])
             conserve_number e_0"

text \<open>
  The general case of the factory (lines 67 to 105). The source overwrites \<open>e_0\<close> with
  the offset of the rank splitter (line 72) and \<open>norb\<close> with 0 (line 74) before it reads
  either, so neither is an argument here.
\<close>

definition build_dense :: "collaborators \<Rightarrow> fermion_operator \<Rightarrow> bool \<Rightarrow> error + hamiltonian" where
  "build_dense lib ops conserve_number =
     (let ops = (if \<not> conserve_number then transform_to_spin_broken ops else ops);
          ops = normal_ordered lib ops
      in case split_openfermion_tensor ops of
           Inl e \<Rightarrow> Inl e
         | Inr (ops_rank, e_0) \<Rightarrow>
             let norb = fold norb_update (map snd ops_rank) 0
             in (case fold_err (ops_mat_update norb) ops_rank [] of
                   Inl e \<Rightarrow> Inl e
                 | Inr ops_mat \<Rightarrow>
                     if length ops_mat = 1
                     then (case map_of ops_mat 2 of
                             Some mat \<Rightarrow> process_rank2_matrix mat (nat norb) conserve_number e_0
                           | None \<Rightarrow>
                               (case map_of ops_mat 4 of
                                  Some mat \<Rightarrow>
                                    if check_diagonal_coulomb mat
                                    then Inr (DiagonalCoulomb mat e_0)
                                    else Inr (general_of ops_mat norb conserve_number e_0)
                                | None \<Rightarrow> Inr (general_of ops_mat norb conserve_number e_0)))
                     else Inr (general_of ops_mat norb conserve_number e_0)))"

definition build_hamiltonian ::
  "collaborators \<Rightarrow> ops_input \<Rightarrow> int \<Rightarrow> bool \<Rightarrow> complex \<Rightarrow> error + hamiltonian" where
  "build_hamiltonian lib ops norb conserve_number e_0 =
     (case ops of
        Hamiltonian h \<Rightarrow> Inr h
      | Tuple ts \<Rightarrow>
          (case validate_tuple lib ts of
             Some e \<Rightarrow> Inl e
           | None \<Rightarrow> Inr (General ts conserve_number e_0))
      | Unrecognized \<Rightarrow> Inl (TypeError ''Expected FermionOperator but received'')
      | FermionOperator ops \<Rightarrow>
          if \<not> is_hermitian lib ops then Inl AssertionError
          else if length ops \<le> 2
          then Inr (SparseHamiltonian norb ops conserve_number e_0)
          else build_dense lib ops conserve_number)"

section \<open>Example inputs\<close>

text \<open>
  The collaborators as they act on the example expressions below, which are Hermitian and
  already in OpenFermion's normal order: the Hermiticity test holds and normal ordering
  returns the expression as it is.
\<close>

definition ordered_lib :: collaborators where
  "ordered_lib = \<lparr>is_hermitian = (\<lambda>ops. True), normal_ordered = (\<lambda>ops. ops),
                  validate_tuple = (\<lambda>ts. None)\<rparr>"

text \<open>\<open>1.0 [] + 2.0 [0^ 0] + 3.0 [1^ 1]\<close>: a constant and two number operators.\<close>

definition number_ops :: fermion_operator where
  "number_ops = [([], 1), ([(0, True), (0, False)], 2), ([(1, True), (1, False)], 3)]"

text \<open>\<open>1.0 [0^ 0] + 1.0 [1^ 1] + 1.0 [1^ 0^ 1 0]\<close>: terms of rank 2 and of rank 4.\<close>

definition two_rank_ops :: fermion_operator where
  "two_rank_ops =
     [([(0, True), (0, False)], 1), ([(1, True), (1, False)], 1),
      ([(1, True), (0, True), (1, False), (0, False)], 1)]"

text \<open>
  \<open>2.0 [1^ 0^ 1 0] + 3.0 [2^ 0^ 2 0] + 5.0 [2^ 1^ 2 1]\<close>: three density-density
  terms of rank 4.
\<close>

definition coulomb_ops :: fermion_operator where
  "coulomb_ops =
     [([(1, True), (0, True), (1, False), (0, False)], 2),
      ([(2, True), (0, True), (2, False), (0, False)], 3),
      ([(2, True), (1, True), (2, False), (1, False)], 5)]"

section \<open>Dictionary lemmas\<close>

lemma dict_set_fresh: "k \<notin> fst ` set d \<Longrightarrow> dict_set d k v = d @ [(k, v)]"
  by (induction d) auto

lemma dict_get_fresh: "k \<notin> fst ` set d \<Longrightarrow> dict_get d k dflt = dflt"
proof -
  assume "k \<notin> fst ` set d"
  then have "map_of d k = None" by (simp add: map_of_eq_None_iff)
  then show ?thesis by (simp add: dict_get_def)
qed

lemma dict_get_set: "dict_get (dict_set d k v) k dflt = v"
  by (induction d) (auto simp: dict_get_def)

lemma dict_del_fresh: "k \<notin> fst ` set d \<Longrightarrow> dict_del (d @ [(k, v)]) k = d"
  by (induction d) (auto simp: dict_del_def)

lemma iadd_fresh:
  "k \<notin> fst ` set d \<Longrightarrow>
   iadd d [(k, c)] = (if cmod c < EQ_TOLERANCE then d else d @ [(k, c)])"
  by (simp add: iadd_def Let_def dict_get_set dict_get_fresh dict_set_fresh dict_del_fresh)

section \<open>Properties of the spin-breaking transform\<close>

lemma spin_broken_element_eq:
  "spin_broken_element (p, a) = (p, if odd p then \<not> a else a)"
  by (simp add: spin_broken_element_def odd_iff_mod_2_eq_one)

lemma spin_broken_element_involution:
  "spin_broken_element (spin_broken_element e) = e"
  by (cases e) (simp add: spin_broken_element_eq)

lemma inj_spin_broken_term: "inj (map spin_broken_element)"
proof (rule inj_on_inverseI)
  fix t :: op_term
  show "map spin_broken_element (map spin_broken_element t) = t"
    by (induction t) (simp_all add: spin_broken_element_involution)
qed

lemma transform_fold:
  assumes "distinct (map fst acc @ map (map spin_broken_element \<circ> fst) ops)"
  shows "fold (\<lambda>(trm, coeff) newstr. iadd newstr [(map spin_broken_element trm, coeff)]) ops acc
         = acc @ map (\<lambda>(trm, coeff). (map spin_broken_element trm, coeff))
                   (filter (\<lambda>(trm, coeff). EQ_TOLERANCE \<le> cmod coeff) ops)"
  using assms
proof (induction ops arbitrary: acc)
  case Nil
  then show ?case by simp
next
  case (Cons x ops)
  obtain t c where x: "x = (t, c)" by (cases x)
  from Cons.prems have fresh: "map spin_broken_element t \<notin> fst ` set acc"
    by (auto simp: x)
  show ?case
  proof (cases "cmod c < EQ_TOLERANCE")
    case True
    from Cons.prems have "distinct (map fst acc @ map (map spin_broken_element \<circ> fst) ops)"
      by (auto simp: x comp_def)
    from Cons.IH [OF this] fresh True show ?thesis
      by (simp add: x iadd_fresh)
  next
    case False
    from Cons.prems have
      "distinct (map fst (acc @ [(map spin_broken_element t, c)])
                 @ map (map spin_broken_element \<circ> fst) ops)"
      by (auto simp: x comp_def)
    from Cons.IH [OF this] fresh False show ?thesis
      by (simp add: x iadd_fresh)
  qed
qed

text \<open>
  C1 (as amended). For an operator whose terms are distinct keys of its dictionary, the
  spin-breaking transform returns, in the same order, the terms whose coefficient is not
  below OpenFermion's tolerance of \<open>1e-08\<close> in magnitude, each with its coefficient
  unchanged, and drops the terms whose coefficient is below it. Every factor of a term
  that is kept keeps its orbital index; its role is flipped if and only if its orbital
  index is odd (beta), and factors with an even (alpha) orbital index keep their role.
\<close>

theorem transform_to_spin_broken_flips_beta:
  assumes "distinct (map fst ops)"
  shows "transform_to_spin_broken ops
         = map (\<lambda>(trm, coeff). (map (\<lambda>(p, a). (p, if odd p then \<not> a else a)) trm, coeff))
             (filter (\<lambda>(trm, coeff). EQ_TOLERANCE \<le> cmod coeff) ops)"
proof -
  have eq: "spin_broken_element = (\<lambda>(p, a). (p, if odd p then \<not> a else a))"
    by (rule ext) (auto simp: spin_broken_element_eq)
  have "distinct (map (map spin_broken_element \<circ> fst) ops)"
    using assms inj_spin_broken_term
    by (simp add: distinct_map comp_def inj_on_def)
  then have "transform_to_spin_broken ops
      = map (\<lambda>(trm, coeff). (map spin_broken_element trm, coeff))
          (filter (\<lambda>(trm, coeff). EQ_TOLERANCE \<le> cmod coeff) ops)"
    unfolding transform_to_spin_broken_def by (subst transform_fold) simp_all
  then show ?thesis by (simp only: eq)
qed

theorem transform_to_spin_broken_flips_beta_witness:
  "distinct (map fst [([(0 :: nat, True), (1, False)], 2), ([(3, True), (2, False)], 3),
                      ([(5, True), (4, False)], 0 :: complex)])
   \<and> transform_to_spin_broken
       [([(0, True), (1, False)], 2), ([(3, True), (2, False)], 3), ([(5, True), (4, False)], 0)]
     = [([(0, True), (1, True)], 2), ([(3, False), (2, False)], 3)]"
  using transform_to_spin_broken_flips_beta
    [of "[([(0, True), (1, False)], 2), ([(3, True), (2, False)], 3),
          ([(5, True), (4, False)], 0)]"]
  by (simp add: EQ_TOLERANCE_def)

text \<open>
  The claim C1 as the specification words it fails twice. The role is not flipped for
  even indices but for odd ones: a creation operator on the even orbital 0 stays a
  creation operator, and a creation operator on the odd orbital 1 becomes an annihilation
  operator. And not every coefficient is carried over: the term \<open>0^ 1\<close> with the
  coefficient 0 is dropped, and the transform returns the operator without terms.
\<close>

theorem transform_to_spin_broken_even_counterexample:
  "transform_to_spin_broken [([(0, True)], 1)] = [([(0, True)], 1)]
   \<and> transform_to_spin_broken [([(1, True)], 1)] = [([(1, False)], 1)]
   \<and> transform_to_spin_broken [([(0, True), (1, False)], 0)] = []"
  by (simp add: transform_to_spin_broken_def iadd_def dict_get_def dict_del_def
      spin_broken_element_def EQ_TOLERANCE_def)

section \<open>Evaluation of the examples\<close>

lemmas operator_eval =
  split_openfermion_tensor_def split_term_def iadd_def dict_get_def dict_del_def EQ_TOLERANCE_def
  largest_operator_index_def norb_update_def many_body_order_def
  fermionops_tomatrix_def tomatrix_term_def tomatrix_factor_def iadd_at_def in_bounds_def
  zeros_def ops_mat_update_def Let_def upt_conv_Cons

lemmas array_eval =
  process_rank2_matrix_def allclose_def conj_T_def nrows_def ncols_def broadcast_dim_def
  bidx_def isclose_def get2_def slice2_def any_nonzero_def assign_cols_def
  not_hermitian_report_def

lemma number_ops_dense:
  "build_dense ordered_lib number_ops True
   = Inr (Diagonal (diagonal \<lparr>shape = [2, 2], entries = (\<lambda>ix. 0)([0, 0] := 2, [1, 1] := 3)\<rparr>)
            True 1)"
  by (simp add: build_dense_def ordered_lib_def number_ops_def operator_eval array_eval)

section \<open>Loops that can raise\<close>

lemma fold_err_Inl: "fold_err f xs s = Inl e \<Longrightarrow> \<exists>x\<in>set xs. \<exists>s'. f x s' = Inl e"
  by (induction xs arbitrary: s) (auto split: sum.splits)

section \<open>The offset of the rank splitter\<close>

lemma fold_err_split_offset:
  "fold_err split_term ops (s, e) = Inr (r, e') \<Longrightarrow>
   e' = e + sum_list (map snd (filter (\<lambda>(trm, coeff). trm = []) ops))"
proof (induction ops arbitrary: s e)
  case Nil
  then show ?case by simp
next
  case (Cons x ops)
  obtain t c where x: "x = (t, c)" by (cases x)
  show ?case
  proof (cases "split_term x (s, e)")
    case (Inl err)
    with Cons.prems show ?thesis by simp
  next
    case (Inr st)
    obtain s1 e1 where st: "st = (s1, e1)" by (cases st)
    from Inr have e1: "e1 = (if t = [] then e + c else e)"
      by (auto simp: x st split_term_def many_body_order_def
               split: if_splits option.splits sum.splits)
    from Cons.prems Inr have "fold_err split_term ops (s1, e1) = Inr (r, e')"
      by (simp add: st)
    from Cons.IH [OF this] e1 show ?thesis
      by (simp add: x add.assoc)
  qed
qed

lemma process_rank2_matrix_offset:
  "process_rank2_matrix mat norb cn e = Inr h \<Longrightarrow> e_0_of h = e"
  by (auto simp: process_rank2_matrix_def Let_def split: sum.splits bool.splits if_splits)

lemma build_dense_offset:
  assumes "build_dense lib ops cn = Inr h"
  shows "e_0_of h = sum_list (map snd (filter (\<lambda>(trm, coeff). trm = [])
           (normal_ordered lib (if cn then ops else transform_to_spin_broken ops))))"
proof -
  let ?ops = "normal_ordered lib (if cn then ops else transform_to_spin_broken ops)"
  from assms obtain r e where sp: "split_openfermion_tensor ?ops = Inr (r, e)"
    by (cases "split_openfermion_tensor ?ops") (auto simp: build_dense_def Let_def split: if_splits)
  then have e: "e = sum_list (map snd (filter (\<lambda>(trm, coeff). trm = []) ?ops))"
    using fold_err_split_offset [of ?ops "[]" 0 r e] by (simp add: split_openfermion_tensor_def)
  from assms sp have "e_0_of h = e"
    by (cases cn)
       (auto simp: build_dense_def Let_def general_of_def
             split: sum.splits option.splits if_splits dest: process_rank2_matrix_offset)
  with e show ?thesis by simp
qed

section \<open>The shared orbital count\<close>

lemma fold_norb_update_ge: "n \<le> fold norb_update xs n"
proof (induction xs arbitrary: n)
  case Nil
  show ?case by simp
next
  case (Cons x xs)
  have "n \<le> norb_update x n"
    by (simp add: norb_update_def le_max_iff_disj split: prod.splits)
  also have "\<dots> \<le> fold norb_update xs (norb_update x n)" by (rule Cons.IH)
  finally show ?case by simp
qed

lemma fold_norb_update_covers:
  assumes "x \<in> set xs" and "largest_operator_index x = (a, b)"
  shows "a div 2 + 1 \<le> fold norb_update xs n \<and> b div 2 + 1 \<le> fold norb_update xs n"
  using assms(1)
proof (induction xs arbitrary: n)
  case Nil
  then show ?case by simp
next
  case (Cons y xs)
  show ?case
  proof (cases "x = y")
    case True
    have "a div 2 + 1 \<le> norb_update y n \<and> b div 2 + 1 \<le> norb_update y n"
      using assms(2) True by (simp add: norb_update_def le_max_iff_disj)
    moreover have "norb_update y n \<le> fold norb_update xs (norb_update y n)"
      by (rule fold_norb_update_ge)
    ultimately show ?thesis by simp
  next
    case False
    with Cons.prems have "x \<in> set xs" by simp
    from Cons.IH [OF this] show ?thesis by simp
  qed
qed

section \<open>Which errors each stage raises\<close>

lemma tomatrix_factor_error:
  "tomatrix_factor rank ablk trm i m = Inl e \<Longrightarrow>
   e = IndexError
   \<or> e = ValueError ''Found annihilation operator wherecreation is expected''
   \<or> e = ValueError ''Found creattion operator whereannihilation is expected''"
  by (auto simp: tomatrix_factor_def Let_def split: if_splits option.splits)

lemma tomatrix_term_error:
  assumes "tomatrix_term rank ablk tc st = Inl e"
  shows "e = IndexError
   \<or> e = ValueError ''Found annihilation operator wherecreation is expected''
   \<or> e = ValueError ''Found creattion operator whereannihilation is expected''"
proof -
  obtain trm coeff tensor mask where tc: "tc = (trm, coeff)" and st: "st = (tensor, mask)"
    by (cases tc, cases st) auto
  show ?thesis
  proof (cases "fold_err (tomatrix_factor rank ablk trm) [0..<rank] mask")
    case (Inl e')
    with assms have "e' = e" by (simp add: tomatrix_term_def tc st)
    with Inl fold_err_Inl [of "tomatrix_factor rank ablk trm" "[0..<rank]" mask e]
    obtain i m where "tomatrix_factor rank ablk trm i m = Inl e" by auto
    then show ?thesis by (rule tomatrix_factor_error)
  next
    case (Inr m)
    with assms have "e = IndexError"
      by (auto simp: tomatrix_term_def tc st iadd_at_def split: if_splits sum.splits)
    then show ?thesis by simp
  qed
qed

lemma many_body_order_error:
  "many_body_order ops = Inl e \<Longrightarrow> e = ValueError ''max() arg is an empty sequence''"
  by (auto simp: many_body_order_def split: if_splits list.splits)

lemma fermionops_tomatrix_no_dimension_error:
  assumes "largest_operator_index ops = (a, b)"
    and "a div 2 + 1 \<le> norb" and "b div 2 + 1 \<le> norb"
  shows "fermionops_tomatrix ops norb
           \<noteq> Inl (ValueError ''Highest alpha index exceeds the norb of orbitals'')
       \<and> fermionops_tomatrix ops norb
           \<noteq> Inl (ValueError ''Highest beta index exceeds the norb of orbitals'')"
proof -
  have b': "(b - 1) div 2 + 1 \<le> norb" using assms(3) by linarith
  let ?dim = "nat (if norb \<noteq> 0 then 2 * norb
                   else max (2 * (a div 2 + 1)) (2 * ((b - 1) div 2 + 1)))"
  have eq: "fermionops_tomatrix ops norb =
     (case many_body_order ops of
        Inl e \<Rightarrow> Inl e
      | Inr rank \<Rightarrow>
          if rank mod 2 \<noteq> 0 then Inl (ValueError ''Odd rank operator not supported'')
          else (case fold_err (tomatrix_term rank (?dim div 2)) ops
                       (zeros (replicate rank ?dim), replicate rank 0) of
                  Inl e \<Rightarrow> Inl e
                | Inr (tensor, index_mask) \<Rightarrow> Inr tensor))"
    using assms(1,2) b' by (simp add: fermionops_tomatrix_def Let_def)
  show ?thesis
  proof (cases "many_body_order ops")
    case (Inl e)
    with many_body_order_error [OF Inl] show ?thesis unfolding eq by simp
  next
    case (Inr rank)
    let ?loop = "fold_err (tomatrix_term rank (?dim div 2)) ops
                   (zeros (replicate rank ?dim), replicate rank 0)"
    show ?thesis
    proof (cases ?loop)
      case (Inl e)
      from fold_err_Inl [OF Inl] obtain x s'
        where "tomatrix_term rank (?dim div 2) x s' = Inl e"
        by auto
      from tomatrix_term_error [OF this] Inl Inr show ?thesis
        unfolding eq by auto
    next
      case loop: (Inr st)
      with Inr show ?thesis unfolding eq by (auto split: prod.splits)
    qed
  qed
qed

lemma split_term_error:
  "split_term tc st = Inl e \<Longrightarrow>
   e = ValueError ''Odd rank term not accepted''
   \<or> e = ValueError ''max() arg is an empty sequence''"
  by (auto simp: split_term_def
           split: prod.splits if_splits option.splits sum.splits
           dest: many_body_order_error)

lemma split_openfermion_tensor_error:
  "split_openfermion_tensor ops = Inl e \<Longrightarrow>
   e = ValueError ''Odd rank term not accepted''
   \<or> e = ValueError ''max() arg is an empty sequence''"
  unfolding split_openfermion_tensor_def
  by (drule fold_err_Inl) (auto dest: split_term_error)

lemma scan_row_error: "scan_row mat i js d = Inl e \<Longrightarrow> e = IndexError"
  by (induction js) (auto simp: get2_def split: sum.splits if_splits)

lemma allclose_error:
  "allclose a b = Inl e \<Longrightarrow> e = ValueError ''operands could not be broadcast together''"
  by (auto simp: allclose_def split: option.splits)

lemma assign_cols_error:
  "assign_cols a c0 c1 b = Inl e \<Longrightarrow> e = ValueError ''could not broadcast input array''"
  by (auto simp: assign_cols_def Let_def split: if_splits)

lemma not_hermitian_report_error:
  "not_hermitian_report mat = Inl e \<Longrightarrow>
   e = IndexError
   \<or> e = ValueError ''operands could not be broadcast together''
   \<or> e = ValueError ''attempt to get argmax of an empty sequence''"
  by (auto simp: not_hermitian_report_def get2_def
           split: option.splits prod.splits sum.splits if_splits)

lemma process_rank2_matrix_error:
  assumes "process_rank2_matrix mat norb cn e0 = Inl e"
  shows "e = ValueError [] \<or> e = IndexError
       \<or> e = ValueError ''operands could not be broadcast together''
       \<or> e = ValueError ''could not broadcast input array''
       \<or> e = ValueError ''attempt to get argmax of an empty sequence''"
  using assms
  by (auto simp: process_rank2_matrix_def Let_def
           split: sum.splits bool.splits if_splits
           dest!: allclose_error assign_cols_error fold_err_Inl scan_row_error
                  not_hermitian_report_error)

lemma build_dense_no_dimension_error:
  "build_dense lib ops cn
     \<noteq> Inl (ValueError ''Highest alpha index exceeds the norb of orbitals'')
   \<and> build_dense lib ops cn
     \<noteq> Inl (ValueError ''Highest beta index exceeds the norb of orbitals'')"
proof -
  let ?ops = "normal_ordered lib (if \<not> cn then transform_to_spin_broken ops else ops)"
  have "e \<noteq> ValueError ''Highest alpha index exceeds the norb of orbitals''
        \<and> e \<noteq> ValueError ''Highest beta index exceeds the norb of orbitals''"
    if res: "build_dense lib ops cn = Inl e" for e
  proof (cases "split_openfermion_tensor ?ops")
    case (Inl e')
    with res have "e' = e" by (simp add: build_dense_def Let_def)
    with split_openfermion_tensor_error [OF Inl] show ?thesis by auto
  next
    case (Inr sp)
    obtain ops_rank e_0 where sp: "sp = (ops_rank, e_0)" by (cases sp)
    let ?norb = "fold norb_update (map snd ops_rank) 0"
    show ?thesis
    proof (cases "fold_err (ops_mat_update ?norb) ops_rank []")
      case (Inl e')
      with res Inr have "e' = e" by (simp add: build_dense_def Let_def sp)
      with fold_err_Inl [OF Inl] obtain rank trm m
        where mem: "(rank, trm) \<in> set ops_rank"
          and "ops_mat_update ?norb (rank, trm) m = Inl e"
        by auto
      then have tm: "fermionops_tomatrix trm ?norb = Inl e"
        by (auto simp: ops_mat_update_def split: sum.splits)
      obtain a b where ab: "largest_operator_index trm = (a, b)"
        by (cases "largest_operator_index trm")
      from mem have "trm \<in> set (map snd ops_rank)" by force
      from fold_norb_update_covers [OF this ab, of 0]
        fermionops_tomatrix_no_dimension_error [OF ab, of ?norb] tm
      show ?thesis by auto
    next
      case ops_mat: (Inr ops_mat)
      from res Inr ops_mat obtain mat where "process_rank2_matrix mat (nat ?norb) cn e_0 = Inl e"
        by (auto simp: build_dense_def Let_def sp split: if_splits option.splits)
      from process_rank2_matrix_error [OF this] show ?thesis by auto
    qed
  qed
  then show ?thesis by blast
qed

section \<open>The factory: routing\<close>

text \<open>
  C8. A representation given to the factory is returned as it is, whatever the
  collaborators and the arguments \<open>norb\<close>, \<open>conserve_number\<close> and \<open>e_0\<close>; hence
  whatever the factory returns, the factory returns it again when it is given back, with
  any other arguments.
\<close>

theorem build_hamiltonian_identity:
  "build_hamiltonian lib (Hamiltonian h) norb conserve_number e_0 = Inr h
   \<and> (build_hamiltonian lib ops norb conserve_number e_0 = Inr h
      \<longrightarrow> build_hamiltonian lib' (Hamiltonian h) norb' conserve_number' e_0' = Inr h)"
  by (simp add: build_hamiltonian_def)

theorem build_hamiltonian_identity_witness:
  "build_hamiltonian ordered_lib (FermionOperator [([(0, True), (0, False)], 1)]) 3 True 0
     = Inr (SparseHamiltonian 3 [([(0, True), (0, False)], 1)] True 0)
   \<and> build_hamiltonian ordered_lib
       (Hamiltonian (SparseHamiltonian 3 [([(0, True), (0, False)], 1)] True 0)) 5 False 2
     = Inr (SparseHamiltonian 3 [([(0, True), (0, False)], 1)] True 0)"
  using build_hamiltonian_identity
    [of ordered_lib "SparseHamiltonian 3 [([(0, True), (0, False)], 1)] True 0" 3 True 0
        "FermionOperator [([(0, True), (0, False)], 1)]" ordered_lib 5 False 2]
  by (simp add: build_hamiltonian_def ordered_lib_def)

text \<open>
  C3 (as amended). For every Hermitian operator expression whose dictionary has two
  entries or fewer, the constant term counted like any other, the factory returns the
  sparse representation, built from the caller's \<open>norb\<close>, the expression,
  \<open>conserve_number\<close> and \<open>e_0\<close>; with more than two entries, the constant term
  counted, it returns what the general case returns.
\<close>

theorem sparse_route_counts_every_entry:
  assumes "is_hermitian lib ops"
  shows "(length ops \<le> 2 \<longrightarrow>
            build_hamiltonian lib (FermionOperator ops) norb conserve_number e_0
            = Inr (SparseHamiltonian norb ops conserve_number e_0))
       \<and> (2 < length ops \<longrightarrow>
            build_hamiltonian lib (FermionOperator ops) norb conserve_number e_0
            = build_dense lib ops conserve_number)"
  using assms by (simp add: build_hamiltonian_def)

theorem sparse_route_counts_every_entry_witness:
  "is_hermitian ordered_lib [([], 1), ([(0, True), (0, False)], 2)]
   \<and> length [([], 1 :: complex), ([(0 :: nat, True), (0, False)], 2)] \<le> 2
   \<and> build_hamiltonian ordered_lib (FermionOperator [([], 1), ([(0, True), (0, False)], 2)])
       4 True 0
     = Inr (SparseHamiltonian 4 [([], 1), ([(0, True), (0, False)], 2)] True 0)
   \<and> is_hermitian ordered_lib number_ops \<and> 2 < length number_ops
   \<and> build_hamiltonian ordered_lib (FermionOperator number_ops) 4 True 0
     = build_dense ordered_lib number_ops True"
  using sparse_route_counts_every_entry
      [of ordered_lib "[([], 1), ([(0, True), (0, False)], 2)]" 4 True 0]
    sparse_route_counts_every_entry [of ordered_lib number_ops 4 True 0]
  by (simp add: ordered_lib_def number_ops_def)

text \<open>
  The claim C3 as the specification words it (the constant term is left out of the count)
  fails: \<open>number_ops\<close> has two entries besides its constant term, and the factory does
  not return the sparse representation for it but the diagonal one.
\<close>

theorem sparse_route_constant_counterexample:
  "length (filter (\<lambda>(trm, coeff). trm \<noteq> []) number_ops) = 2
   \<and> build_hamiltonian ordered_lib (FermionOperator number_ops) 0 True 0
     = Inr (Diagonal (diagonal \<lparr>shape = [2, 2],
                               entries = (\<lambda>ix. 0)([0, 0] := 2, [1, 1] := 3)\<rparr>) True 1)"
proof -
  have "build_hamiltonian ordered_lib (FermionOperator number_ops) 0 True 0
        = build_dense ordered_lib number_ops True"
    by (simp add: build_hamiltonian_def ordered_lib_def number_ops_def)
  then show ?thesis
    by (simp add: number_ops_dense) (simp add: number_ops_def)
qed

section \<open>The factory: the general case\<close>

text \<open>
  C9. For an operator expression with more than two entries, which is what reaches the
  general case, the \<open>e_0\<close> of the caller has no effect on what the factory returns,
  and the offset of a returned representation is the sum of the coefficients of the
  rank-0 terms of the normal-ordered expression (after the spin-breaking transform when
  \<open>conserve_number\<close> is false).
\<close>

theorem dense_offset_replaces_e_0:
  assumes "2 < length ops"
  shows "build_hamiltonian lib (FermionOperator ops) norb conserve_number e_0
         = build_hamiltonian lib (FermionOperator ops) norb conserve_number e_0'
       \<and> (build_hamiltonian lib (FermionOperator ops) norb conserve_number e_0 = Inr h
          \<longrightarrow> e_0_of h
              = sum_list (map snd (filter (\<lambda>(trm, coeff). trm = [])
                  (normal_ordered lib
                     (if conserve_number then ops else transform_to_spin_broken ops)))))"
proof (cases "is_hermitian lib ops")
  case False
  then show ?thesis by (simp add: build_hamiltonian_def)
next
  case True
  with assms have "build_hamiltonian lib (FermionOperator ops) norb conserve_number e
      = build_dense lib ops conserve_number" for e
    by (simp add: build_hamiltonian_def)
  then show ?thesis by (auto dest: build_dense_offset)
qed

theorem dense_offset_replaces_e_0_witness:
  "2 < length number_ops
   \<and> build_hamiltonian ordered_lib (FermionOperator number_ops) 0 True 5
     = build_hamiltonian ordered_lib (FermionOperator number_ops) 0 True 7
   \<and> build_hamiltonian ordered_lib (FermionOperator number_ops) 0 True 5
     = Inr (Diagonal (diagonal \<lparr>shape = [2, 2],
                               entries = (\<lambda>ix. 0)([0, 0] := 2, [1, 1] := 3)\<rparr>) True 1)
   \<and> sum_list (map snd (filter (\<lambda>(trm, coeff). trm = [])
        (normal_ordered ordered_lib number_ops))) = 1"
proof -
  have len: "2 < length number_ops" by (simp add: number_ops_def)
  have res: "build_hamiltonian ordered_lib (FermionOperator number_ops) 0 True 5
     = Inr (Diagonal (diagonal \<lparr>shape = [2, 2],
                               entries = (\<lambda>ix. 0)([0, 0] := 2, [1, 1] := 3)\<rparr>) True 1)"
    using len by (simp add: build_hamiltonian_def ordered_lib_def number_ops_dense
        [unfolded ordered_lib_def])
  from dense_offset_replaces_e_0 [OF len, of ordered_lib 0 True 5 7
      "Diagonal (diagonal \<lparr>shape = [2, 2],
                 entries = (\<lambda>ix. 0)([0, 0] := 2, [1, 1] := 3)\<rparr>) True 1"] res len
  show ?thesis by simp
qed

text \<open>
  C10. For an operator expression with more than two entries, which is what reaches the
  general case, the factory returns the same result for any two values of \<open>norb\<close>;
  the orbital count handed to the tensor builder is inferred from the expression and is
  never below what the builder requires, so the factory never fails with either error of
  the builder's validation of an explicit orbital count.
\<close>

theorem dense_ignores_norb:
  assumes "2 < length ops"
  shows "build_hamiltonian lib (FermionOperator ops) norb conserve_number e_0
         = build_hamiltonian lib (FermionOperator ops) norb' conserve_number e_0
       \<and> build_hamiltonian lib (FermionOperator ops) norb conserve_number e_0
         \<noteq> Inl (ValueError ''Highest alpha index exceeds the norb of orbitals'')
       \<and> build_hamiltonian lib (FermionOperator ops) norb conserve_number e_0
         \<noteq> Inl (ValueError ''Highest beta index exceeds the norb of orbitals'')"
  using assms build_dense_no_dimension_error [of lib ops conserve_number]
  by (simp add: build_hamiltonian_def)

theorem dense_ignores_norb_witness:
  "2 < length number_ops
   \<and> build_hamiltonian ordered_lib (FermionOperator number_ops) 1 True 0
     = build_hamiltonian ordered_lib (FermionOperator number_ops) 40 True 0
   \<and> build_hamiltonian ordered_lib (FermionOperator number_ops) 1 True 0
     \<noteq> Inl (ValueError ''Highest alpha index exceeds the norb of orbitals'')
   \<and> build_hamiltonian ordered_lib (FermionOperator number_ops) 1 True 0
     \<noteq> Inl (ValueError ''Highest beta index exceeds the norb of orbitals'')"
proof -
  have len: "2 < length number_ops" by (simp add: number_ops_def)
  from dense_ignores_norb [OF len, of ordered_lib 1 True 0 40] len
  show ?thesis by blast
qed

text \<open>
  C2. The shared \<open>norb\<close> is meant to be the largest block requirement of the
  sub-expressions, but the loop takes the maximum with \<open>norb + 1\<close> and so counts the
  ranks as well. For \<open>two_rank_ops\<close> both sub-expressions have largest even index 0 and
  largest odd index 1, a block requirement of \<open>0 // 2 + 1 = 1 // 2 + 1 = 1\<close>; the loop
  yields 2, and every tensor of the result has axes of length 4 instead of 2.
\<close>

theorem shared_norb_two_ranks:
  "split_openfermion_tensor two_rank_ops
     = Inr ([(2, [([(0, True), (0, False)], 1), ([(1, True), (1, False)], 1)]),
             (4, [([(1, True), (0, True), (1, False), (0, False)], 1)])], 0)
   \<and> largest_operator_index [([(0, True), (0, False)], 1), ([(1, True), (1, False)], 1)]
     = (0, 1)
   \<and> largest_operator_index [([(1, True), (0, True), (1, False), (0, False)], 1)] = (0, 1)
   \<and> fold norb_update [[([(0, True), (0, False)], 1), ([(1, True), (1, False)], 1)],
                         [([(1, True), (0, True), (1, False), (0, False)], 1)]] 0 = 2
   \<and> build_hamiltonian ordered_lib (FermionOperator two_rank_ops) 0 True 0
     = Inr (General [\<lparr>shape = [4, 4], entries = (\<lambda>ix. 0)([0, 0] := 1, [2, 2] := 1)\<rparr>,
                     \<lparr>shape = [4, 4, 4, 4], entries = (\<lambda>ix. 0)([2, 0, 2, 0] := 1)\<rparr>,
                     zeros (replicate 6 4), zeros (replicate 8 4)] True 0)"
  by (simp add: build_hamiltonian_def build_dense_def general_of_def ordered_lib_def
      two_rank_ops_def operator_eval)
     (simp add: eval_nat_numeral)

section \<open>The rank-2 classifier: matrices that are not Hermitian\<close>

text \<open>
  C6. A matrix that fails the Hermiticity test makes the classifier fail, and the source
  computes the diagnostics that the error is meant to carry, but they do not reach it: the
  error is a bare \<open>ValueError\<close>. For the matrix with 7 at (1, 0) the diagnostics are the
  index (0, 1) and the values 0 and 7, for the 3 x 3 matrix with 5 at (1, 2) they are the
  index (1, 2) and the values 5 and 0, and both matrices fail with the very same error
  value, which names neither an index nor a value.
\<close>

theorem not_hermitian_error_is_bare:
  "not_hermitian_report \<lparr>shape = [2, 2], entries = (\<lambda>ix. 0)([1, 0] := 7)\<rparr>
     = Inr ((0, 1), 0, 7)
   \<and> process_rank2_matrix \<lparr>shape = [2, 2], entries = (\<lambda>ix. 0)([1, 0] := 7)\<rparr> 1 True 0
     = Inl (ValueError [])
   \<and> not_hermitian_report \<lparr>shape = [3, 3], entries = (\<lambda>ix. 0)([1, 2] := 5)\<rparr>
     = Inr ((1, 2), 5, 0)
   \<and> process_rank2_matrix \<lparr>shape = [3, 3], entries = (\<lambda>ix. 0)([1, 2] := 5)\<rparr> 1 True 0
     = Inl (ValueError [])"
  by (simp add: array_eval upt_conv_Cons)

section \<open>The diagonal-Coulomb check\<close>

lemma check_diagonal_coulomb_iff:
  "check_diagonal_coulomb mat \<longleftrightarrow>
   (\<forall>i<nrows mat. \<forall>j<nrows mat. \<forall>k<nrows mat. \<forall>l<nrows mat.
      \<not> (i = k \<and> j = l) \<longrightarrow> entries mat [i, j, k, l] = 0)"
  by (auto simp: check_diagonal_coulomb_def Let_def list_all_iff)

lemma coulomb_ops_split: "split_openfermion_tensor coulomb_ops = Inr ([(4, coulomb_ops)], 0)"
  by (simp add: coulomb_ops_def operator_eval)

lemma coulomb_ops_mat:
  "fermionops_tomatrix coulomb_ops (fold norb_update [coulomb_ops] 0)
   = Inr \<lparr>shape = [4, 4, 4, 4],
          entries = (\<lambda>ix. 0)([2, 0, 2, 0] := 2, [1, 0, 1, 0] := 3, [1, 2, 1, 2] := 5)\<rparr>"
  by (simp add: coulomb_ops_def operator_eval) (simp add: eval_nat_numeral)

text \<open>
  C5. When the rank splitter finds rank 4 alone, so that the factory builds one tensor
  \<open>mat\<close>, of rank 4, the factory returns the diagonal-Coulomb representation of \<open>mat\<close>
  if and only if every entry of \<open>mat\<close> at an index \<open>(i, j, k, l)\<close> other than those with
  \<open>i = k\<close> and \<open>j = l\<close> is exactly zero; if one entry breaks the pattern it returns the
  general representation, with \<open>mat\<close> in the second place and zeros for the ranks 2, 6
  and 8.
\<close>

theorem diagonal_coulomb_detection:
  assumes "is_hermitian lib ops" and "2 < length ops"
    and "split_openfermion_tensor
           (normal_ordered lib (if conserve_number then ops else transform_to_spin_broken ops))
         = Inr ([(4, sub)], e)"
    and "fermionops_tomatrix sub (fold norb_update [sub] 0) = Inr mat"
  shows "build_hamiltonian lib (FermionOperator ops) norb conserve_number e_0
         = (if \<forall>i<nrows mat. \<forall>j<nrows mat. \<forall>k<nrows mat. \<forall>l<nrows mat.
                 \<not> (i = k \<and> j = l) \<longrightarrow> entries mat [i, j, k, l] = 0
            then Inr (DiagonalCoulomb mat e)
            else Inr (General
                   [zeros (replicate 2 (nat (2 * fold norb_update [sub] 0))), mat,
                    zeros (replicate 6 (nat (2 * fold norb_update [sub] 0))),
                    zeros (replicate 8 (nat (2 * fold norb_update [sub] 0)))]
                   conserve_number e))"
proof -
  have "build_hamiltonian lib (FermionOperator ops) norb conserve_number e_0
        = build_dense lib ops conserve_number"
    using assms(1,2) by (simp add: build_hamiltonian_def)
  also have "\<dots> = (if check_diagonal_coulomb mat then Inr (DiagonalCoulomb mat e)
            else Inr (general_of [(4, mat)] (fold norb_update [sub] 0) conserve_number e))"
    using assms(3,4)
    by (cases conserve_number) (simp_all add: build_dense_def ops_mat_update_def)
  finally have "build_hamiltonian lib (FermionOperator ops) norb conserve_number e_0
      = (if check_diagonal_coulomb mat then Inr (DiagonalCoulomb mat e)
         else Inr (general_of [(4, mat)] (fold norb_update [sub] 0) conserve_number e))" .
  moreover have "general_of [(4, mat)] (fold norb_update [sub] 0) conserve_number e
      = General [zeros (replicate 2 (nat (2 * fold norb_update [sub] 0))), mat,
                 zeros (replicate 6 (nat (2 * fold norb_update [sub] 0))),
                 zeros (replicate 8 (nat (2 * fold norb_update [sub] 0)))] conserve_number e"
    by (simp add: general_of_def)
  ultimately show ?thesis
    by (simp only: check_diagonal_coulomb_iff)
qed

theorem diagonal_coulomb_detection_witness:
  "is_hermitian ordered_lib coulomb_ops \<and> 2 < length coulomb_ops
   \<and> split_openfermion_tensor (normal_ordered ordered_lib coulomb_ops)
     = Inr ([(4, coulomb_ops)], 0)
   \<and> fermionops_tomatrix coulomb_ops (fold norb_update [coulomb_ops] 0)
     = Inr \<lparr>shape = [4, 4, 4, 4],
            entries = (\<lambda>ix. 0)([2, 0, 2, 0] := 2, [1, 0, 1, 0] := 3, [1, 2, 1, 2] := 5)\<rparr>
   \<and> build_hamiltonian ordered_lib (FermionOperator coulomb_ops) 0 True 0
     = Inr (DiagonalCoulomb \<lparr>shape = [4, 4, 4, 4],
            entries = (\<lambda>ix. 0)([2, 0, 2, 0] := 2, [1, 0, 1, 0] := 3, [1, 2, 1, 2] := 5)\<rparr> 0)"
proof -
  have herm: "is_hermitian ordered_lib coulomb_ops" by (simp add: ordered_lib_def)
  have len: "2 < length coulomb_ops" by (simp add: coulomb_ops_def)
  have split: "split_openfermion_tensor
       (normal_ordered ordered_lib
          (if True then coulomb_ops else transform_to_spin_broken coulomb_ops))
     = Inr ([(4, coulomb_ops)], 0)"
    by (simp add: ordered_lib_def coulomb_ops_split)
  from diagonal_coulomb_detection [OF herm len split coulomb_ops_mat, of 0 0]
    herm len split coulomb_ops_mat
  show ?thesis by (simp add: nrows_def)
qed

section \<open>The rank-2 classifier: the order of the cases\<close>

lemma nrows_slice2 [simp]:
  "nrows (slice2 a r0 r1 c0 c1) = min r1 (nrows a) - min r0 (nrows a)"
  by (simp add: slice2_def nrows_def Let_def)

lemma ncols_slice2 [simp]:
  "ncols (slice2 a r0 r1 c0 c1) = min c1 (ncols a) - min c0 (ncols a)"
  by (simp add: slice2_def ncols_def Let_def)

lemma entries_slice2 [simp]:
  "entries (slice2 a r0 r1 c0 c1) [i, j] = entries a [min r0 (nrows a) + i, min c0 (ncols a) + j]"
  by (simp add: slice2_def Let_def)

lemma bidx_less: "i < n \<Longrightarrow> bidx n i = i"
  by (auto simp: bidx_def)

lemma allclose_same_shape:
  assumes "nrows a = nrows b" and "ncols a = ncols b"
  shows "allclose a b
         = Inr (\<forall>i<nrows a. \<forall>j<ncols a. isclose (entries a [i, j]) (entries b [i, j]))"
  using assms by (auto simp: allclose_def broadcast_dim_def list_all_iff bidx_less)

lemma scan_row_eval:
  assumes "i < nrows mat" and "\<forall>j\<in>set js. j < ncols mat"
  shows "scan_row mat i js d = Inr (d \<and> (\<forall>j\<in>set js. entries mat [i, j] = 0))"
  using assms(2) by (induction js) (auto simp: get2_def assms(1))

lemma scan_eval:
  assumes "\<forall>i\<in>set rows. i < nrows mat \<and> i \<le> ncols mat"
  shows "fold_err (\<lambda>i diag. scan_row mat i [0..<i] diag) rows d
         = Inr (d \<and> (\<forall>i\<in>set rows. \<forall>j<i. entries mat [i, j] = 0))"
  using assms
proof (induction rows arbitrary: d)
  case Nil
  show ?case by simp
next
  case (Cons i rows)
  then have "scan_row mat i [0..<i] d = Inr (d \<and> (\<forall>j\<in>set [0..<i]. entries mat [i, j] = 0))"
    by (intro scan_row_eval) auto
  with Cons show ?case by auto
qed

lemma any_nonzero_iff:
  "any_nonzero a \<longleftrightarrow> (\<exists>i<nrows a. \<exists>j<ncols a. entries a [i, j] \<noteq> 0)"
  by (simp add: any_nonzero_def list_ex_iff Bex_def)

lemma nrows_record [simp]: "nrows \<lparr>shape = n # ns, entries = f\<rparr> = n"
  by (simp add: nrows_def)

lemma ncols_record [simp]: "ncols \<lparr>shape = n # m # ns, entries = f\<rparr> = m"
  by (simp add: ncols_def)

lemma nrows_zeros [simp]: "nrows (zeros [n, m]) = n"
  by (simp add: nrows_def zeros_def)

lemma ncols_zeros [simp]: "ncols (zeros [n, m]) = m"
  by (simp add: ncols_def zeros_def)


lemma assign_cols_fits:
  assumes "nrows b = nrows a" and "ncols b = min c1 (ncols a) - min c0 (ncols a)"
  shows "assign_cols a c0 c1 b
         = Inr (a\<lparr>entries := (\<lambda>ix. case ix of
                   [i, j] \<Rightarrow> if i < nrows a \<and> min c0 (ncols a) \<le> j \<and> j < min c1 (ncols a)
                             then entries b [i, j - min c0 (ncols a)]
                             else entries a ix
                 | _ \<Rightarrow> entries a ix)\<rparr>)"
proof -
  have "(\<lambda>ix. case ix of
            [i, j] \<Rightarrow> if i < nrows a \<and> min c0 (ncols a) \<le> j
                           \<and> j < min c0 (ncols a) + (min c1 (ncols a) - min c0 (ncols a))
                      then entries b [bidx (nrows b) i, bidx (ncols b) (j - min c0 (ncols a))]
                      else entries a ix
          | _ \<Rightarrow> entries a ix)
      = (\<lambda>ix. case ix of
            [i, j] \<Rightarrow> if i < nrows a \<and> min c0 (ncols a) \<le> j \<and> j < min c1 (ncols a)
                      then entries b [i, j - min c0 (ncols a)]
                      else entries a ix
          | _ \<Rightarrow> entries a ix)"
  proof (rule ext)
    fix ix :: "nat list"
    show "(case ix of
            [i, j] \<Rightarrow> if i < nrows a \<and> min c0 (ncols a) \<le> j
                           \<and> j < min c0 (ncols a) + (min c1 (ncols a) - min c0 (ncols a))
                      then entries b [bidx (nrows b) i, bidx (ncols b) (j - min c0 (ncols a))]
                      else entries a ix
          | _ \<Rightarrow> entries a ix)
      = (case ix of
            [i, j] \<Rightarrow> if i < nrows a \<and> min c0 (ncols a) \<le> j \<and> j < min c1 (ncols a)
                      then entries b [i, j - min c0 (ncols a)]
                      else entries a ix
          | _ \<Rightarrow> entries a ix)"
      using assms by (auto simp: bidx_less split: list.splits)
  qed
  then show ?thesis
    using assms by (simp add: assign_cols_def Let_def)
qed


text \<open>
  The order of the cases when the orbital count is given. For every rank-2 matrix in the
  blocked layout, of dimension \<open>2*norb\<close> for the orbital count \<open>norb\<close> given to the
  classifier, that passes the Hermiticity check, the classifier decides in this order: if every entry of the strict lower triangle
  is zero it returns Diagonal, built from the diagonal of the matrix; otherwise, if the
  quadrant of rows \<open>norb:2*norb\<close> and columns \<open>0:norb\<close> has an entry that is not
  zero, it returns GSO; otherwise, if the alpha-alpha block is equal to the beta-beta
  block within the tolerance, it returns Restricted; otherwise it returns SSO with the
  tensor of shape \<open>(norb, 2*norb)\<close> that holds the alpha-alpha block in the columns
  below \<open>norb\<close> and the beta-beta block in the columns from \<open>norb\<close> on.
\<close>

theorem rank2_classification_order:
  assumes shp: "shape mat = [2 * norb, 2 * norb]"
    and herm: "allclose mat (conj_T mat) = Inr True"
  shows "process_rank2_matrix mat norb conserve_number e_0
         = (if \<forall>i<2 * norb. \<forall>j<i. entries mat [i, j] = 0
            then Inr (Diagonal (diagonal mat) conserve_number e_0)
            else if \<exists>i<norb. \<exists>j<norb. entries mat [norb + i, j] \<noteq> 0
            then Inr (GSOHamiltonian [mat] conserve_number e_0)
            else if \<forall>i<norb. \<forall>j<norb.
                      isclose (entries mat [i, j]) (entries mat [norb + i, norb + j])
            then Inr (Restricted [mat] conserve_number e_0)
            else Inr (SSOHamiltonian
                   [\<lparr>shape = [norb, 2 * norb],
                     entries = (\<lambda>ix. case ix of
                        [i, j] \<Rightarrow> if i < norb \<and> j < norb then entries mat [i, j]
                                  else if i < norb \<and> j < 2 * norb then entries mat [norb + i, j]
                                  else 0
                      | _ \<Rightarrow> 0)\<rparr>]
                   conserve_number e_0))"
proof -
  have nr: "nrows mat = 2 * norb" and nc: "ncols mat = 2 * norb"
    by (simp_all add: nrows_def ncols_def shp)
  have norb_eff: "(if norb = 0 then nrows mat else norb) = norb"
    using nr by simp
  have "fold_err (\<lambda>i diag. scan_row mat i [0..<i] diag) [1..<2 * norb] True
        = Inr (True \<and> (\<forall>i\<in>set [1..<2 * norb]. \<forall>j<i. entries mat [i, j] = 0))"
    by (rule scan_eval) (simp add: nr nc)
  moreover have "(\<forall>i\<in>set [1..<2 * norb]. \<forall>j<i. entries mat [i, j] = 0)
        \<longleftrightarrow> (\<forall>i<2 * norb. \<forall>j<i. entries mat [i, j] = 0)"
    by (auto simp: Suc_le_eq)
  ultimately have scan:
    "fold_err (\<lambda>i diag. scan_row mat i [0..<i] diag) [1..<max norb (nrows mat)] True
        = Inr (\<forall>i<2 * norb. \<forall>j<i. entries mat [i, j] = 0)"
    by (simp add: nr)
  have coupling: "any_nonzero (slice2 mat norb (2 * norb) 0 norb)
        \<longleftrightarrow> (\<exists>i<norb. \<exists>j<norb. entries mat [norb + i, j] \<noteq> 0)"
    by (simp add: any_nonzero_iff nr nc)
  have blocks: "allclose (slice2 mat 0 norb 0 norb) (slice2 mat norb (nrows mat) norb (ncols mat))
        = Inr (\<forall>i<norb. \<forall>j<norb.
                 isclose (entries mat [i, j]) (entries mat [norb + i, norb + j]))"
    by (subst allclose_same_shape) (simp_all add: nr nc)
  have first: "assign_cols (zeros [norb, 2 * norb]) 0 norb (slice2 mat 0 norb 0 norb)
        = Inr \<lparr>shape = [norb, 2 * norb],
               entries = (\<lambda>ix. case ix of
                  [i, j] \<Rightarrow> if i < norb \<and> j < norb then entries mat [i, j] else 0
                | _ \<Rightarrow> 0)\<rparr>"
    apply (subst assign_cols_fits)
      apply (simp_all add: nr nc)
    apply (auto simp: zeros_def fun_eq_iff split: list.splits)
    done
  have second: "assign_cols
          \<lparr>shape = [norb, 2 * norb],
            entries = (\<lambda>ix. case ix of
                  [i, j] \<Rightarrow> if i < norb \<and> j < norb then entries mat [i, j] else 0
                | _ \<Rightarrow> 0)\<rparr>
          norb (2 * norb) (slice2 mat norb (nrows mat) norb (ncols mat))
        = Inr \<lparr>shape = [norb, 2 * norb],
               entries = (\<lambda>ix. case ix of
                  [i, j] \<Rightarrow> if i < norb \<and> j < norb then entries mat [i, j]
                            else if i < norb \<and> j < 2 * norb then entries mat [norb + i, j]
                            else 0
                | _ \<Rightarrow> 0)\<rparr>"
    apply (subst assign_cols_fits)
      apply (simp_all add: nr nc)
    apply (auto simp: fun_eq_iff nr nc split: list.splits)
    done
  show ?thesis
    unfolding process_rank2_matrix_def herm Let_def norb_eff scan coupling blocks first second
    by (simp add: bool.case_eq_if second)
qed


theorem rank2_classification_order_witness:
  "shape \<lparr>shape = [4, 4], entries = (\<lambda>ix. 0)([0, 1] := 1, [1, 0] := 1)\<rparr> = [2 * 2, 2 * 2]
   \<and> allclose \<lparr>shape = [4, 4], entries = (\<lambda>ix. 0)([0, 1] := 1, [1, 0] := 1)\<rparr>
       (conj_T \<lparr>shape = [4, 4], entries = (\<lambda>ix. 0)([0, 1] := 1, [1, 0] := 1)\<rparr>) = Inr True
   \<and> process_rank2_matrix
       \<lparr>shape = [4, 4], entries = (\<lambda>ix. 0)([0, 1] := 1, [1, 0] := 1)\<rparr> 2 True 0
     = Inr (SSOHamiltonian
         [\<lparr>shape = [2, 2 * 2],
           entries = (\<lambda>ix. case ix of
              [i, j] \<Rightarrow>
                if i < 2 \<and> j < 2
                then entries \<lparr>shape = [4, 4],
                              entries = (\<lambda>ix. 0)([0, 1] := 1, [1, 0] := 1)\<rparr> [i, j]
                else if i < 2 \<and> j < 2 * 2
                then entries \<lparr>shape = [4, 4],
                              entries = (\<lambda>ix. 0)([0, 1] := 1, [1, 0] := 1)\<rparr> [2 + i, j]
                else 0
            | _ \<Rightarrow> 0)\<rparr>] True 0)"
proof -
  let ?M = "\<lparr>shape = [4, 4], entries = (\<lambda>ix. 0)([0, 1] := 1, [1, 0] := 1)\<rparr>"
  have shp: "shape ?M = [2 * 2, 2 * 2]" by simp
  have herm: "allclose ?M (conj_T ?M) = Inr True"
    by (simp add: array_eval upt_conv_Cons)
  have lower: "\<not> (\<forall>i<2 * 2. \<forall>j<i. entries ?M [i, j] = 0)"
  proof
    assume "\<forall>i<2 * 2. \<forall>j<i. entries ?M [i, j] = 0"
    from this [rule_format, of 1 0] show False by simp
  qed
  have coupling: "\<not> (\<exists>i<2. \<exists>j<2. entries ?M [2 + i, j] \<noteq> 0)"
    by auto
  have blocks: "\<not> (\<forall>i<2. \<forall>j<2. isclose (entries ?M [i, j]) (entries ?M [2 + i, 2 + j]))"
  proof
    assume "\<forall>i<2. \<forall>j<2. isclose (entries ?M [i, j]) (entries ?M [2 + i, 2 + j])"
    from this [rule_format, of 0 1] show False by (simp add: isclose_def)
  qed
  from rank2_classification_order [OF shp herm, of True 0] lower coupling blocks shp herm
  show ?thesis by (simp only: if_False simp_thms)
qed

lemma rank2_inferred_norb_general:
  assumes shp: "shape mat = [n, n]" and n: "2 \<le> n"
    and herm: "allclose mat (conj_T mat) = Inr True"
    and lower: "\<exists>i<n. \<exists>j<i. entries mat [i, j] \<noteq> 0"
  shows "process_rank2_matrix mat 0 conserve_number e_0
         = Inl (ValueError ''operands could not be broadcast together'')"
proof -
  have nr: "nrows mat = n" and nc: "ncols mat = n"
    by (simp_all add: nrows_def ncols_def shp)
  have norb_eff: "(if (0 :: nat) = 0 then nrows mat else 0) = n"
    by (simp add: nr)
  have "fold_err (\<lambda>i diag. scan_row mat i [0..<i] diag) [1..<n] True
        = Inr (True \<and> (\<forall>i\<in>set [1..<n]. \<forall>j<i. entries mat [i, j] = 0))"
    by (rule scan_eval) (simp add: nr nc)
  moreover have "\<not> (\<forall>i\<in>set [1..<n]. \<forall>j<i. entries mat [i, j] = 0)"
    using lower by (auto simp: Suc_le_eq)
  ultimately have scan:
    "fold_err (\<lambda>i diag. scan_row mat i [0..<i] diag) [1..<max n (nrows mat)] True = Inr False"
    by (simp add: nr)
  have coupling: "\<not> any_nonzero (slice2 mat n (2 * n) 0 n)"
    by (simp add: any_nonzero_iff nr nc)
  have blocks: "allclose (slice2 mat 0 n 0 n) (slice2 mat n (nrows mat) n (ncols mat))
        = Inl (ValueError ''operands could not be broadcast together'')"
    using n by (simp add: allclose_def broadcast_dim_def nr nc)
  show ?thesis
    unfolding process_rank2_matrix_def herm Let_def norb_eff scan
    using coupling by (simp add: blocks)
qed

text \<open>
  C4. The ordered case analysis is what the classifier does when it is given the orbital
  count. When the orbital count is left to it (\<open>norb = 0\<close>), line 299 takes
  \<open>norb = mat.shape[0]\<close> where the blocked layout has \<open>mat.shape[0] // 2\<close>: the
  beta-beta block \<open>mat[norb:, norb:]\<close> is empty, and for the Hermitian matrix with 1 at
  (0, 1) and (1, 0) the comparison of the blocks raises instead of selecting a
  representation.
\<close>

theorem rank2_inferred_norb_raises:
  "allclose \<lparr>shape = [2, 2], entries = (\<lambda>ix. 0)([0, 1] := 1, [1, 0] := 1)\<rparr>
       (conj_T \<lparr>shape = [2, 2], entries = (\<lambda>ix. 0)([0, 1] := 1, [1, 0] := 1)\<rparr>) = Inr True
   \<and> process_rank2_matrix
       \<lparr>shape = [2, 2], entries = (\<lambda>ix. 0)([0, 1] := 1, [1, 0] := 1)\<rparr> 0 True 0
     = Inl (ValueError ''operands could not be broadcast together'')"
  by (simp add: array_eval upt_conv_Cons)

section \<open>The tensor builder: the canonical order\<close>

lemma fold_err_append:
  "fold_err f (xs @ ys) s
   = (case fold_err f xs s of Inl e \<Rightarrow> Inl e | Inr s' \<Rightarrow> fold_err f ys s')"
  by (induction xs arbitrary: s) (auto split: sum.splits)

lemma fold_err_Inr_all:
  "fold_err f xs s = Inr s' \<Longrightarrow> \<forall>x\<in>set xs. \<exists>s1 s2. f x s1 = Inr s2"
  by (induction xs arbitrary: s) (auto split: sum.splits)

lemma tomatrix_factor_Inr:
  "tomatrix_factor rank ablk trm i m = Inr m' \<Longrightarrow> snd (trm ! i) = (i < rank div 2)"
  by (auto simp: tomatrix_factor_def Let_def split: if_splits option.splits)

lemma tomatrix_factor_canonical:
  assumes "i < length trm" and "snd (trm ! i) = (i < rank div 2)"
  shows "tomatrix_factor rank ablk trm i m
         = Inr (m[i := (if fst (trm ! i) mod 2 \<noteq> 0 then (fst (trm ! i) - 1) div 2 + ablk
                        else fst (trm ! i) div 2)])"
  using assms by (simp add: tomatrix_factor_def Let_def)

lemma factor_loop_prefix:
  assumes "length trm = rank" and "length m = rank"
    and "\<forall>i<rank. snd (trm ! i) = (i < rank div 2)"
    and "k \<le> rank"
  shows "fold_err (tomatrix_factor rank ablk trm) [0..<k] m
         = Inr (map (\<lambda>(p, a). if p mod 2 \<noteq> 0 then (p - 1) div 2 + ablk else p div 2)
                  (take k trm) @ drop k m)"
  using assms(4)
proof (induction k)
  case 0
  show ?case by simp
next
  case (Suc k)
  let ?blk = "\<lambda>(p, a). if p mod 2 \<noteq> 0 then (p - 1) div 2 + ablk else p div 2"
  from Suc.prems have k: "k < rank" by simp
  with Suc.IH have IH: "fold_err (tomatrix_factor rank ablk trm) [0..<k] m
      = Inr (map ?blk (take k trm) @ drop k m)" by simp
  have step: "tomatrix_factor rank ablk trm k (map ?blk (take k trm) @ drop k m)
      = Inr ((map ?blk (take k trm) @ drop k m)[k := ?blk (trm ! k)])"
    using k assms(1,3) by (subst tomatrix_factor_canonical) (auto simp: case_prod_beta)
  have "(map ?blk (take k trm) @ drop k m)[k := ?blk (trm ! k)]
      = map ?blk (take (Suc k) trm) @ drop (Suc k) m"
  proof -
    have len: "length (map ?blk (take k trm)) = k" using k assms(1) by simp
    have "drop k m = m ! k # drop (Suc k) m"
      using k assms(2) by (simp add: Cons_nth_drop_Suc)
    then have "(map ?blk (take k trm) @ drop k m)[k := ?blk (trm ! k)]
        = map ?blk (take k trm) @ ?blk (trm ! k) # drop (Suc k) m"
      using len by (simp add: list_update_append)
    also have "\<dots> = map ?blk (take (Suc k) trm) @ drop (Suc k) m"
      using k assms(1) by (simp add: take_Suc_conv_app_nth)
    finally show ?thesis .
  qed
  with IH step show ?case
    by (simp add: fold_err_append)
qed

lemma factor_loop_canonical:
  assumes "length trm = rank" and "length m = rank"
    and "\<forall>i<rank. snd (trm ! i) = (i < rank div 2)"
  shows "fold_err (tomatrix_factor rank ablk trm) [0..<rank] m
         = Inr (map (\<lambda>(p, a). if p mod 2 \<noteq> 0 then (p - 1) div 2 + ablk else p div 2) trm)"
  using factor_loop_prefix [OF assms, of rank ablk] assms(1,2) by simp

lemma factor_loop_not_canonical:
  assumes "length trm = rank"
    and "\<not> (\<forall>i<rank. snd (trm ! i) = (i < rank div 2))"
  shows "fold_err (tomatrix_factor rank ablk trm) [0..<rank] m
         \<in> {Inl (ValueError ''Found annihilation operator wherecreation is expected''),
            Inl (ValueError ''Found creattion operator whereannihilation is expected'')}"
proof (cases "fold_err (tomatrix_factor rank ablk trm) [0..<rank] m")
  case (Inr m')
  from fold_err_Inr_all [OF this] have "\<forall>i<rank. snd (trm ! i) = (i < rank div 2)"
    by (auto dest: tomatrix_factor_Inr)
  with assms(2) show ?thesis by simp
next
  case (Inl e)
  from fold_err_Inl [OF this] obtain i s' where i: "i < rank"
    and e: "tomatrix_factor rank ablk trm i s' = Inl e" by auto
  from e i assms(1) have "e \<noteq> IndexError"
    by (auto simp: tomatrix_factor_def Let_def split: if_splits option.splits)
  with tomatrix_factor_error [OF e] Inl show ?thesis by auto
qed


lemma term_loop_result:
  assumes "\<forall>(trm, coeff)\<in>set ops. length trm = rank
             \<and> (\<forall>(p, a)\<in>set trm.
                   (if p mod 2 \<noteq> 0 then (p - 1) div 2 + ablk else p div 2) < dm)"
    and "shape tensor = replicate rank dm" and "length m = rank"
  shows "if \<forall>(trm, coeff)\<in>set ops. \<forall>i<rank. snd (trm ! i) = (i < rank div 2)
         then \<exists>st. fold_err (tomatrix_term rank ablk) ops (tensor, m) = Inr st
                   \<and> shape (fst st) = replicate rank dm
         else fold_err (tomatrix_term rank ablk) ops (tensor, m)
              \<in> {Inl (ValueError ''Found annihilation operator wherecreation is expected''),
                 Inl (ValueError ''Found creattion operator whereannihilation is expected'')}"
  using assms
proof (induction ops arbitrary: tensor m)
  case Nil
  then show ?case by simp
next
  case (Cons x ops)
  let ?blk = "\<lambda>(p, a). if p mod 2 \<noteq> 0 then (p - 1) div 2 + ablk else p div 2"
  obtain trm coeff where x: "x = (trm, coeff)" by (cases x)
  from Cons.prems(1) have len: "length trm = rank"
    and bound: "\<forall>pa\<in>set trm. ?blk pa < dm"
    and rest: "\<forall>(trm, coeff)\<in>set ops. length trm = rank
             \<and> (\<forall>(p, a)\<in>set trm.
                   (if p mod 2 \<noteq> 0 then (p - 1) div 2 + ablk else p div 2) < dm)"
    by (auto simp: x)
  show ?case
  proof (cases "\<forall>i<rank. snd (trm ! i) = (i < rank div 2)")
    case True
    from factor_loop_canonical [OF len Cons.prems(3) True]
    have loop: "fold_err (tomatrix_factor rank ablk trm) [0..<rank] m = Inr (map ?blk trm)" .
    have "in_bounds tensor (map ?blk trm)"
      using bound len Cons.prems(2)
      by (auto simp: in_bounds_def list_all2_conv_all_nth)
    then have step: "tomatrix_term rank ablk x (tensor, m)
        = Inr (tensor\<lparr>entries := (entries tensor)
                 (map ?blk trm := entries tensor (map ?blk trm) + coeff)\<rparr>, map ?blk trm)"
      by (simp add: tomatrix_term_def x loop iadd_at_def)
    have eq: "fold_err (tomatrix_term rank ablk) (x # ops) (tensor, m)
        = fold_err (tomatrix_term rank ablk) ops
            (tensor\<lparr>entries := (entries tensor)
                 (map ?blk trm := entries tensor (map ?blk trm) + coeff)\<rparr>, map ?blk trm)"
      unfolding fold_err.simps step by simp
    have sh: "shape (tensor\<lparr>entries := (entries tensor)
                 (map ?blk trm := entries tensor (map ?blk trm) + coeff)\<rparr>) = replicate rank dm"
      using Cons.prems(2) by simp
    have lm: "length (map ?blk trm) = rank" using len by simp
    have "(\<forall>(trm, coeff)\<in>set (x # ops). \<forall>i<rank. snd (trm ! i) = (i < rank div 2))
        \<longleftrightarrow> (\<forall>(trm, coeff)\<in>set ops. \<forall>i<rank. snd (trm ! i) = (i < rank div 2))"
      using True by (simp add: x)
    with Cons.IH [OF rest sh lm] show ?thesis
      unfolding eq by simp
  next
    case False
    from factor_loop_not_canonical [OF len False, of ablk m]
    have "tomatrix_term rank ablk x (tensor, m)
         \<in> {Inl (ValueError ''Found annihilation operator wherecreation is expected''),
            Inl (ValueError ''Found creattion operator whereannihilation is expected'')}"
      by (auto simp: tomatrix_term_def x)
    with False show ?thesis by (auto simp: x)
  qed
qed

lemma fold_max_index_ge:
  "d \<le> fold (\<lambda>p m. max (int p) m) xs d
   \<and> (\<forall>x\<in>set xs. int x \<le> fold (\<lambda>p m. max (int p) m) xs d)"
proof (induction xs arbitrary: d)
  case Nil
  show ?case by simp
next
  case (Cons x xs)
  from Cons.IH [of "max (int x) d"] show ?case by auto
qed

lemma largest_operator_index_bounds:
  assumes "(trm, coeff) \<in> set ops" and "(p, a) \<in> set trm"
  shows "if even p then int p \<le> fst (largest_operator_index ops)
         else int p \<le> snd (largest_operator_index ops)"
proof -
  have "p \<in> set (concat (map (\<lambda>(trm, coeff). map fst trm) ops))"
    using assms by force
  then show ?thesis
    using fold_max_index_ge
      [of "- 1" "filter even (concat (map (\<lambda>(trm, coeff). map fst trm) ops))"]
      fold_max_index_ge
      [of "- 1" "filter odd (concat (map (\<lambda>(trm, coeff). map fst trm) ops))"]
    by (simp add: largest_operator_index_def Let_def)
qed

lemma largest_operator_index_ge: 
  "- 1 \<le> fst (largest_operator_index ops) \<and> - 1 \<le> snd (largest_operator_index ops)"
  using fold_max_index_ge
      [of "- 1" "filter even (concat (map (\<lambda>(trm, coeff). map fst trm) ops))"]
      fold_max_index_ge
      [of "- 1" "filter odd (concat (map (\<lambda>(trm, coeff). map fst trm) ops))"]
  by (simp add: largest_operator_index_def Let_def)

lemma many_body_order_single_rank:
  assumes "\<forall>(trm, coeff)\<in>set ops. length trm = rank"
    and "\<exists>(trm, coeff)\<in>set ops. EQ_TOLERANCE < cmod coeff"
  shows "many_body_order ops = Inr rank"
proof -
  let ?kept = "filter (\<lambda>(trm, coeff). EQ_TOLERANCE < cmod coeff) ops"
  have fold_eq: "fold (\<lambda>(trm, coeff) m. max (length trm) m) xs d = max rank d"
    if "\<forall>(trm, coeff)\<in>set xs. length trm = rank" and "xs \<noteq> []"
    for xs :: fermion_operator and d
    using that
  proof (induction xs arbitrary: d)
    case Nil
    then show ?case by simp
  next
    case (Cons x xs)
    then show ?case by (cases "xs = []") (auto simp: max.assoc)
  qed
  from assms(2) have ne: "?kept \<noteq> []" by (auto simp: filter_empty_conv)
  then have ops: "ops \<noteq> []" by auto
  from assms(1) have "\<forall>(trm, coeff)\<in>set ?kept. length trm = rank" by auto
  from fold_eq [OF this ne, of 0]
  have "fold (\<lambda>(trm, coeff) m. max (length trm) m) ?kept 0 = rank" by simp
  moreover from ne ops have "many_body_order ops
      = Inr (fold (\<lambda>(trm, coeff) m. max (length trm) m) ?kept 0)"
    by (cases ?kept) (simp_all add: many_body_order_def)
  ultimately show ?thesis by simp
qed

lemma blocked_index_bound:
  assumes p: "if even p then int p \<le> a0 else int p \<le> b0"
    and "a0 div 2 + 1 \<le> M" and "(b0 - 1) div 2 + 1 \<le> M"
  shows "(if p mod 2 \<noteq> 0 then (p - 1) div 2 + nat (2 * M) div 2 else p div 2) < nat (2 * M)"
proof (cases "even p")
  case True
  with p have "int p div 2 \<le> a0 div 2" by (simp add: zdiv_mono1)
  with assms(2) have "int (p div 2) < M" by (simp add: zdiv_int)
  then have "p div 2 < nat (2 * M)" by linarith
  with True show ?thesis by (simp add: even_iff_mod_2_eq_zero)
next
  case False
  with p have "(int p - 1) div 2 \<le> (b0 - 1) div 2" by (simp add: zdiv_mono1)
  moreover from False have "int ((p - 1) div 2) = (int p - 1) div 2"
    by (cases p) (simp_all add: zdiv_int)
  ultimately have "int ((p - 1) div 2) < M" using assms(3) by linarith
  then have "(p - 1) div 2 + nat (2 * M) div 2 < nat (2 * M)" by linarith
  with False show ?thesis by (simp add: odd_iff_mod_2_eq_one)
qed

text \<open>
  Once the validation of the orbital count has passed and the rank has been found, the
  builder returns a tensor when every term is in canonical order, and fails with one of
  the two ordering errors otherwise.
\<close>

lemma tomatrix_after_validation:
  assumes single: "\<forall>(trm, coeff)\<in>set ops. length trm = rank"
    and ev: "even rank"
    and valid: "norb = 0 \<or> (fst (largest_operator_index ops) div 2 + 1 \<le> norb
                            \<and> (snd (largest_operator_index ops) - 1) div 2 + 1 \<le> norb)"
    and large: "\<exists>(trm, coeff)\<in>set ops. EQ_TOLERANCE < cmod coeff"
  shows "if \<forall>(trm, coeff)\<in>set ops. \<forall>i<rank. snd (trm ! i) = (i < rank div 2)
         then \<exists>tensor. fermionops_tomatrix ops norb = Inr tensor
         else fermionops_tomatrix ops norb
              \<in> {Inl (ValueError ''Found annihilation operator wherecreation is expected''),
                 Inl (ValueError ''Found creattion operator whereannihilation is expected'')}"
proof -
  obtain a0 b0 where loi: "largest_operator_index ops = (a0, b0)"
    by (cases "largest_operator_index ops")
  define M where "M = (if norb \<noteq> 0 then norb else max (a0 div 2 + 1) ((b0 - 1) div 2 + 1))"
  have Ma: "a0 div 2 + 1 \<le> M" and Mb: "(b0 - 1) div 2 + 1 \<le> M"
    using valid by (auto simp: M_def loi)
  have dm: "nat (if norb \<noteq> 0 then 2 * norb
                 else max (2 * (a0 div 2 + 1)) (2 * ((b0 - 1) div 2 + 1))) = nat (2 * M)"
    by (simp add: M_def max_def)
  have pass: "\<not> (norb \<noteq> 0 \<and> norb < a0 div 2 + 1)" "\<not> (norb \<noteq> 0 \<and> norb < (b0 - 1) div 2 + 1)"
    using valid by (auto simp: loi)
  have rank: "many_body_order ops = Inr rank"
    using single large by (rule many_body_order_single_rank)
  let ?loop = "fold_err (tomatrix_term rank (nat (2 * M) div 2)) ops
                 (zeros (replicate rank (nat (2 * M))), replicate rank 0)"
  have eq: "fermionops_tomatrix ops norb =
     (if rank mod 2 \<noteq> 0 then Inl (ValueError ''Odd rank operator not supported'')
      else (case ?loop of Inl e \<Rightarrow> Inl e | Inr (tensor, index_mask) \<Rightarrow> Inr tensor))"
    unfolding fermionops_tomatrix_def loi Let_def prod.case dm rank using pass by auto
  have bounds: "\<forall>(trm, coeff)\<in>set ops. length trm = rank
           \<and> (\<forall>(p, a)\<in>set trm.
                 (if p mod 2 \<noteq> 0 then (p - 1) div 2 + nat (2 * M) div 2 else p div 2)
                 < nat (2 * M))"
  proof (intro ballI, clarify, intro conjI ballI)
    fix trm coeff
    assume mem: "(trm, coeff) \<in> set ops"
    with single show "length trm = rank" by auto
    fix pa assume pa_mem: "pa \<in> set trm"
    obtain p a where pa: "pa = (p, a)" by (cases pa)
    with pa_mem have "(p, a) \<in> set trm" by simp
    from largest_operator_index_bounds [OF mem this]
    have "if even p then int p \<le> a0 else int p \<le> b0" by (simp add: loi split: if_splits)
    from blocked_index_bound [OF this Ma Mb]
    show "case pa of (p, a) \<Rightarrow>
            (if p mod 2 \<noteq> 0 then (p - 1) div 2 + nat (2 * M) div 2 else p div 2)
            < nat (2 * M)"
      by (simp add: pa)
  qed
  have "shape (zeros (replicate rank (nat (2 * M)))) = replicate rank (nat (2 * M))"
    by (simp add: zeros_def)
  from term_loop_result [OF bounds this, of "replicate rank 0"] ev
  show ?thesis
    by (auto simp: eq even_iff_mod_2_eq_zero split: if_splits)
qed

lemma canonical_no_ordering_error:
  assumes single: "\<forall>(trm, coeff)\<in>set ops. length trm = rank"
    and canonical: "\<forall>(trm, coeff)\<in>set ops. \<forall>i<rank. snd (trm ! i) = (i < rank div 2)"
  shows "fermionops_tomatrix ops norb
         \<notin> {Inl (ValueError ''Found annihilation operator wherecreation is expected''),
            Inl (ValueError ''Found creattion operator whereannihilation is expected'')}"
proof -
  obtain a0 b0 where loi: "largest_operator_index ops = (a0, b0)"
    by (cases "largest_operator_index ops")
  let ?dim = "nat (if norb \<noteq> 0 then 2 * norb
                   else max (2 * (a0 div 2 + 1)) (2 * ((b0 - 1) div 2 + 1)))"
  show ?thesis
  proof (cases "norb \<noteq> 0 \<and> (norb < a0 div 2 + 1 \<or> norb < (b0 - 1) div 2 + 1)")
    case True
    then show ?thesis by (auto simp: fermionops_tomatrix_def loi Let_def)
  next
    case False
    then have valid: "norb = 0 \<or> (fst (largest_operator_index ops) div 2 + 1 \<le> norb
                            \<and> (snd (largest_operator_index ops) - 1) div 2 + 1 \<le> norb)"
      by (auto simp: loi)
    from False have pass1: "\<not> (norb \<noteq> 0 \<and> norb < a0 div 2 + 1)"
      and pass2: "\<not> (norb \<noteq> 0 \<and> norb < (b0 - 1) div 2 + 1)"
      by auto
    have eq: "fermionops_tomatrix ops norb =
       (case many_body_order ops of
          Inl e \<Rightarrow> Inl e
        | Inr r \<Rightarrow>
            if r mod 2 \<noteq> 0 then Inl (ValueError ''Odd rank operator not supported'')
            else (case fold_err (tomatrix_term r (?dim div 2)) ops
                         (zeros (replicate r ?dim), replicate r 0) of
                    Inl e \<Rightarrow> Inl e
                  | Inr (tensor, index_mask) \<Rightarrow> Inr tensor))"
      unfolding fermionops_tomatrix_def loi Let_def prod.case
      by (simp only: pass1 pass2 if_False)
    show ?thesis
    proof (cases "many_body_order ops")
      case (Inl e)
      with many_body_order_error [OF Inl] show ?thesis unfolding eq by simp
    next
      case (Inr r)
      show ?thesis
      proof (cases "ops = []")
        case True
        with Inr show ?thesis unfolding eq by (auto simp: many_body_order_def)
      next
        case ne: False
        from Inr ne have "filter (\<lambda>(trm, coeff). EQ_TOLERANCE < cmod coeff) ops \<noteq> []"
          by (auto simp: many_body_order_def split: list.splits if_splits)
        then have large: "\<exists>(trm, coeff)\<in>set ops. EQ_TOLERANCE < cmod coeff"
          by (simp add: filter_empty_conv)
        with single Inr have r: "r = rank"
          using many_body_order_single_rank [OF single large] by simp
        show ?thesis
        proof (cases "even rank")
          case True
          from tomatrix_after_validation [OF single True valid large] canonical
          show ?thesis by auto
        next
          case odd: False
          with Inr r show ?thesis unfolding eq by (simp add: odd_iff_mod_2_eq_one)
        qed
      qed
    qed
  qed
qed

text \<open>
  C7 (as amended). For every single-rank sub-expression of even rank given to the tensor
  builder: provided the orbital count passes the builder's validation (\<open>norb\<close> is 0, or
  at least both block counts) and some term has a coefficient above OpenFermion's
  tolerance of \<open>1e-08\<close> in magnitude, if some term has a factor among its first
  \<open>rank/2\<close> that is not a creation operator, or a factor among the remaining
  \<open>rank/2\<close> that is not an annihilation operator, the builder fails with one of its
  two ordering errors and returns no tensor; and if every term is in canonical order, the
  builder raises neither ordering error.
\<close>

theorem ordering_error_after_validation:
  assumes single: "\<forall>(trm, coeff)\<in>set ops. length trm = rank"
    and ev: "even rank"
  shows "((norb = 0 \<or> (fst (largest_operator_index ops) div 2 + 1 \<le> norb
                        \<and> (snd (largest_operator_index ops) - 1) div 2 + 1 \<le> norb))
          \<and> (\<exists>(trm, coeff)\<in>set ops. EQ_TOLERANCE < cmod coeff)
          \<and> (\<exists>(trm, coeff)\<in>set ops. \<exists>i<rank. snd (trm ! i) \<noteq> (i < rank div 2))
          \<longrightarrow> fermionops_tomatrix ops norb
              \<in> {Inl (ValueError ''Found annihilation operator wherecreation is expected''),
                 Inl (ValueError ''Found creattion operator whereannihilation is expected'')})
       \<and> ((\<forall>(trm, coeff)\<in>set ops. \<forall>i<rank. snd (trm ! i) = (i < rank div 2))
          \<longrightarrow> fermionops_tomatrix ops norb
              \<notin> {Inl (ValueError ''Found annihilation operator wherecreation is expected''),
                 Inl (ValueError ''Found creattion operator whereannihilation is expected'')})"
proof (intro conjI impI)
  assume h: "(norb = 0 \<or> (fst (largest_operator_index ops) div 2 + 1 \<le> norb
                        \<and> (snd (largest_operator_index ops) - 1) div 2 + 1 \<le> norb))
          \<and> (\<exists>(trm, coeff)\<in>set ops. EQ_TOLERANCE < cmod coeff)
          \<and> (\<exists>(trm, coeff)\<in>set ops. \<exists>i<rank. snd (trm ! i) \<noteq> (i < rank div 2))"
  then have "\<not> (\<forall>(trm, coeff)\<in>set ops. \<forall>i<rank. snd (trm ! i) = (i < rank div 2))"
    by auto
  with tomatrix_after_validation [OF single ev, of norb] h
  show "fermionops_tomatrix ops norb
              \<in> {Inl (ValueError ''Found annihilation operator wherecreation is expected''),
                 Inl (ValueError ''Found creattion operator whereannihilation is expected'')}"
    by (simp only: if_False simp_thms)
next
  assume "\<forall>(trm, coeff)\<in>set ops. \<forall>i<rank. snd (trm ! i) = (i < rank div 2)"
  with single show "fermionops_tomatrix ops norb
              \<notin> {Inl (ValueError ''Found annihilation operator wherecreation is expected''),
                 Inl (ValueError ''Found creattion operator whereannihilation is expected'')}"
    by (rule canonical_no_ordering_error)
qed

theorem ordering_error_after_validation_witness:
  "length [(0 :: nat, False), (0, True)] = 2 \<and> even (2 :: nat)
   \<and> EQ_TOLERANCE < cmod 1
   \<and> snd ([(0 :: nat, False), (0, True)] ! 0) \<noteq> (0 < (2 :: nat) div 2)
   \<and> fermionops_tomatrix [([(0, False), (0, True)], 1)] 0
     \<in> {Inl (ValueError ''Found annihilation operator wherecreation is expected''),
        Inl (ValueError ''Found creattion operator whereannihilation is expected'')}
   \<and> fermionops_tomatrix [([(0, True), (0, False)], 1)] 0
     \<notin> {Inl (ValueError ''Found annihilation operator wherecreation is expected''),
        Inl (ValueError ''Found creattion operator whereannihilation is expected'')}"
proof -
  have single: "\<forall>(trm, coeff)\<in>set [([(0 :: nat, False), (0, True)], 1 :: complex)].
                  length trm = 2"
    by simp
  have single': "\<forall>(trm, coeff)\<in>set [([(0 :: nat, True), (0, False)], 1 :: complex)].
                  length trm = 2"
    by simp
  have ev: "even (2 :: nat)" by simp
  have large: "EQ_TOLERANCE < cmod 1" by (simp add: EQ_TOLERANCE_def)
  have bad: "\<exists>(trm, coeff)\<in>set [([(0 :: nat, False), (0, True)], 1 :: complex)].
                  \<exists>i<2. snd (trm ! i) \<noteq> (i < 2 div 2)"
    by (auto intro!: exI [of _ 0])
  have good: "\<forall>(trm, coeff)\<in>set [([(0 :: nat, True), (0, False)], 1 :: complex)].
                  \<forall>i<2. snd (trm ! i) = (i < 2 div 2)"
    by (auto simp: less_Suc_eq numeral_2_eq_2)
  have large': "\<exists>(trm, coeff)\<in>set [([(0 :: nat, False), (0, True)], 1 :: complex)].
                  EQ_TOLERANCE < cmod coeff"
    using large by simp
  from ordering_error_after_validation [OF single ev, of 0, THEN conjunct1] large' bad
  have first: "fermionops_tomatrix [([(0, False), (0, True)], 1)] 0
     \<in> {Inl (ValueError ''Found annihilation operator wherecreation is expected''),
        Inl (ValueError ''Found creattion operator whereannihilation is expected'')}"
    by blast
  from ordering_error_after_validation [OF single' ev, of 0, THEN conjunct2] good
  have second: "fermionops_tomatrix [([(0, True), (0, False)], 1)] 0
     \<notin> {Inl (ValueError ''Found annihilation operator wherecreation is expected''),
        Inl (ValueError ''Found creattion operator whereannihilation is expected'')}"
    by blast
  from first second large show ?thesis by simp
qed

text \<open>
  The claim C7 as the specification words it (every term out of canonical order makes the
  builder fail with the ordering error) fails twice, since two steps come before the loop
  over the terms. The validation of an explicit orbital count comes first: the term
  \<open>2 2^\<close> with \<open>norb = 1\<close> fails with the error of the validation. And the rank is
  taken from the terms with a coefficient above the tolerance: the term \<open>0 0^\<close> with
  the coefficient 0 fails with the error of \<open>max()\<close> on an empty sequence.
\<close>

theorem ordering_error_validation_counterexample:
  "fermionops_tomatrix [([(2, False), (2, True)], 1)] 1
     = Inl (ValueError ''Highest alpha index exceeds the norb of orbitals'')
   \<and> fermionops_tomatrix [([(0, False), (0, True)], 0)] 0
     = Inl (ValueError ''max() arg is an empty sequence'')"
  by (simp add: operator_eval)

end
